theory Spec2Isabelle
  imports Main "HOL-Library.Word"
begin

section \<open>Errors and machine integers\<close>

text \<open>
  Every \<open>raise\<close>, failed \<open>assert\<close> and library exception of
  \<open>ALLCools/mcds/base_ds.py\<close> is a value of this type. The source's own
  errors carry their message.
\<close>

datatype error =
    ValueError string
  | AssertionError string
  | KeyError string
  | IndexError string
  | TypeError string
  | InvalidIndexError string
  | NotImplementedError string
  | TypingError string

type_synonym u32 = "32 word"

section \<open>Interval expansion: \<open>_regions_to_pos\<close>\<close>

text \<open>
  \<open>np.arange(start, end, dtype=np.uint32)\<close>: the values \<open>start, start + 1, \<dots>\<close>
  below \<open>end\<close>; empty when \<open>end \<le> start\<close>.
\<close>

definition arange_u32 :: "u32 \<Rightarrow> u32 \<Rightarrow> u32 list" where
  "arange_u32 start end' = map word_of_nat [unat start ..< unat end']"

text \<open>
  A bound of a Python slice on a sequence of length \<open>n\<close>: a negative bound
  counts from the end, and the bound is clipped to the sequence.
\<close>

definition clip_index :: "int \<Rightarrow> nat \<Rightarrow> nat" where
  "clip_index i n = (if i < 0 then nat (max 0 (i + int n)) else min (nat i) n)"

text \<open>
  \<open>buf[lo : hi] = vals\<close> on a one-dimensional array: the slice is empty when its
  upper bound is not above the lower one, and the assigned array must have the
  slice's length.
\<close>

definition set_slice :: "'b list \<Rightarrow> int \<Rightarrow> int \<Rightarrow> 'b list \<Rightarrow> error + 'b list" where
  "set_slice buf lo hi vals =
     (let n = length buf; lo' = clip_index lo n; hi' = max lo' (clip_index hi n)
      in if length vals = hi' - lo'
         then Inr (take lo' buf @ vals @ drop hi' buf)
         else Inl (ValueError ''cannot assign slice from input of different size''))"

text \<open>
  The loop \<open>for start, end in regions\<close>. The elements of the array are unsigned
  32-bit (\<open>fetch_regions\<close> casts the regions to \<open>uint32\<close>). The compiled loop
  widens the scalars \<open>start\<close> and \<open>end\<close> to 64 bits, so that \<open>length\<close> and
  \<open>cur_pos\<close> are integers and \<open>length\<close> is negative when \<open>end < start\<close>: the
  slice is then empty, as is the range written to it, and \<open>cur_pos\<close> moves
  back.
\<close>

fun fill_regions :: "(u32 \<times> u32) list \<Rightarrow> int \<Rightarrow> u32 list \<Rightarrow> error + u32 list" where
  "fill_regions [] cur_pos pos_sel = Inr pos_sel"
| "fill_regions ((start, end') # regions) cur_pos pos_sel =
     (let length' = uint end' - uint start
      in case set_slice pos_sel cur_pos (cur_pos + length') (arange_u32 start end') of
           Inl e \<Rightarrow> Inl e
         | Inr pos_sel' \<Rightarrow> fill_regions regions (cur_pos + length') pos_sel')"

text \<open>
  \<open>_regions_to_pos\<close>. \<open>delta\<close> is a difference of two columns of the
  \<open>uint32\<close> array and stays \<open>uint32\<close>: it wraps around when \<open>end < start\<close>.
  The size \<open>delta.sum()\<close> of the buffer is a natural number: it is 64-bit in
  the source and bounded by the size of an array that exists.
\<close>

definition regions_to_pos :: "(u32 \<times> u32) list \<Rightarrow> error + u32 list" where
  "regions_to_pos regions =
     (let delta = map (\<lambda>(start, end'). end' - start) regions;
          pos_sel = replicate (sum_list (map unat delta)) (0 :: u32)
      in fill_regions regions 0 pos_sel)"

section \<open>Attribute dictionaries and the object store\<close>

text \<open>
  The values of \<open>Dataset.attrs\<close>. \<open>truthy\<close> is the truth value Python gives
  one in \<open>if self.continuous:\<close>; \<open>attr_int\<close> is its use in arithmetic
  (a \<open>bool\<close> is an \<open>int\<close>, a \<open>str\<close> raises); \<open>attr_num\<close> is its
  numeric value in a comparison with an integer.
\<close>

datatype attr = ABool bool | AInt int | AStr string

type_synonym attrs = "string \<rightharpoonup> attr"

fun truthy :: "attr \<Rightarrow> bool" where
  "truthy (ABool b) = b"
| "truthy (AInt i) = (i \<noteq> 0)"
| "truthy (AStr v) = (v \<noteq> [])"

fun attr_num :: "attr \<Rightarrow> int option" where
  "attr_num (AInt i) = Some i"
| "attr_num (ABool b) = Some (if b then 1 else 0)"
| "attr_num (AStr v) = None"

definition attr_int :: "attr \<Rightarrow> error + int" where
  "attr_int v = (case attr_num v of
       None \<Rightarrow> Inl (TypeError ''unsupported operand type(s)'')
     | Some i \<Rightarrow> Inr i)"

text \<open>
  A \<open>BaseDSChrom\<close> object. The variables \<open>data\<close> and \<open>codebook\<close> lie along the
  \<open>pos\<close> dimension: \<open>ds_data\<close> holds one block of counts per position and
  \<open>ds_codebook\<close> one column per position, with one value for each label of
  \<open>ds_mc_type\<close>. \<open>ds_pos\<close> is the coordinate of the \<open>pos\<close> dimension, or
  \<open>None\<close> when the dimension has no coordinate, as in a dataset read from
  storage. \<open>ds_attrs\<close> is the address of the \<open>attrs\<close> dictionary: xarray hands
  the same dictionary to every dataset that \<open>sel\<close> derives.
\<close>

record 'a dataset =
  ds_pos :: "int list option"
  ds_data :: "'a list"
  ds_codebook :: "int list list"
  ds_mc_type :: "string list"
  ds_attrs :: nat

record 'a store =
  objs :: "'a dataset list"
  dicts :: "attrs list"

definition attrs_of :: "'a store \<Rightarrow> nat \<Rightarrow> attrs" where
  "attrs_of s self = dicts s ! ds_attrs (objs s ! self)"

text \<open>The properties \<open>continuous\<close> and \<open>offset\<close>: \<open>attrs.get\<close> with a default.\<close>

definition continuous :: "'a store \<Rightarrow> nat \<Rightarrow> bool" where
  "continuous s self =
     (case attrs_of s self ''continuous'' of None \<Rightarrow> False | Some v \<Rightarrow> truthy v)"

definition offset :: "'a store \<Rightarrow> nat \<Rightarrow> attr" where
  "offset s self =
     (case attrs_of s self ''offset'' of None \<Rightarrow> AInt 0 | Some v \<Rightarrow> v)"

definition chrom_size :: "'a store \<Rightarrow> nat \<Rightarrow> error + int" where
  "chrom_size s self =
     (case attrs_of s self ''chrom_size'' of
        None \<Rightarrow> Inl (KeyError ''chrom_size'')
      | Some v \<Rightarrow> attr_int v)"

text \<open>\<open>obj.continuous is False\<close> and \<open>obj.offset == 0\<close>, as \<open>fetch_regions\<close> asserts them.\<close>

definition continuous_is_False :: "'a store \<Rightarrow> nat \<Rightarrow> bool" where
  "continuous_is_False s self =
     (case attrs_of s self ''continuous'' of None \<Rightarrow> True | Some v \<Rightarrow> v = ABool False)"

definition offset_eq_0 :: "'a store \<Rightarrow> nat \<Rightarrow> bool" where
  "offset_eq_0 s self = (attr_num (offset s self) = Some 0)"

text \<open>
  Allocation of the object a \<open>sel\<close> returns, \<open>obj.attrs = obj.attrs.copy()\<close>,
  \<open>obj.attrs[k] = v\<close>, \<open>obj.attrs.pop(k, None)\<close>, the setter of \<open>continuous\<close>
  and \<open>obj.coords["pos"] = positions\<close>.
\<close>

definition new_obj :: "'a store \<Rightarrow> 'a dataset \<Rightarrow> nat \<times> 'a store" where
  "new_obj s d = (length (objs s), s\<lparr>objs := objs s @ [d]\<rparr>)"

definition copy_attrs :: "'a store \<Rightarrow> nat \<Rightarrow> 'a store" where
  "copy_attrs s obj =
     s\<lparr>dicts := dicts s @ [attrs_of s obj],
       objs := (objs s)[obj := (objs s ! obj)\<lparr>ds_attrs := length (dicts s)\<rparr>]\<rparr>"

definition set_attr :: "'a store \<Rightarrow> nat \<Rightarrow> string \<Rightarrow> attr \<Rightarrow> 'a store" where
  "set_attr s obj k v =
     (let a = ds_attrs (objs s ! obj)
      in s\<lparr>dicts := (dicts s)[a := (dicts s ! a)(k \<mapsto> v)]\<rparr>)"

definition pop_attr :: "'a store \<Rightarrow> nat \<Rightarrow> string \<Rightarrow> 'a store" where
  "pop_attr s obj k =
     (let a = ds_attrs (objs s ! obj)
      in s\<lparr>dicts := (dicts s)[a := (dicts s ! a)(k := None)]\<rparr>)"

definition set_continuous :: "'a store \<Rightarrow> nat \<Rightarrow> bool \<Rightarrow> 'a store" where
  "set_continuous s obj v =
     (let s1 = set_attr s obj ''continuous'' (ABool v)
      in if \<not> v then pop_attr s1 obj ''offset'' else s1)"

definition set_pos :: "'a store \<Rightarrow> nat \<Rightarrow> int list \<Rightarrow> 'a store" where
  "set_pos s obj positions =
     s\<lparr>objs := (objs s)[obj := (objs s ! obj)\<lparr>ds_pos := Some positions\<rparr>]\<rparr>"

section \<open>Selection along \<open>pos\<close>\<close>

text \<open>
  \<open>get_index("pos")\<close>: the coordinate, or the default range index of a dimension
  without one.
\<close>

definition pos_index :: "'a dataset \<Rightarrow> int list" where
  "pos_index d =
     (case ds_pos d of None \<Rightarrow> map int [0 ..< length (ds_data d)] | Some idx \<Rightarrow> idx)"

text \<open>
  The absolute positions of a dataset, as the source computes them:
  \<open>self.get_index("pos") + self.offset\<close>.
\<close>

definition genomic_position :: "'a store \<Rightarrow> nat \<Rightarrow> error + int list" where
  "genomic_position s self =
     (case attr_int (offset s self) of
        Inl e \<Rightarrow> Inl e
      | Inr off \<Rightarrow> Inr (map (\<lambda>p. p + off) (pos_index (objs s ! self))))"

fun index_of :: "int \<Rightarrow> int list \<Rightarrow> nat option" where
  "index_of k [] = None"
| "index_of k (p # ps) = (if p = k then Some 0 else map_option Suc (index_of k ps))"

text \<open>
  The places \<open>sel(pos=slice(a, b))\<close> selects, as a half-open range of places.
  On a dimension without coordinate \<open>sel\<close> falls back to \<open>isel\<close>, a Python
  slice. On a coordinate the slice is by label and includes both ends (pandas
  \<open>slice_locs\<close>): by binary search on a sorted index, and between the places of
  the two labels otherwise, which must then be there once.
\<close>

definition slice_bounds :: "'a dataset \<Rightarrow> int \<Rightarrow> int \<Rightarrow> error + nat \<times> nat" where
  "slice_bounds d a b =
     (case ds_pos d of
        None \<Rightarrow> Inr (clip_index a (length (ds_data d)), clip_index b (length (ds_data d)))
      | Some idx \<Rightarrow>
          if sorted idx
          then Inr (length (filter (\<lambda>p. p < a) idx), length (filter (\<lambda>p. p \<le> b) idx))
          else if count_list idx a = 1 \<and> count_list idx b = 1
          then Inr (the (index_of a idx), Suc (the (index_of b idx)))
          else Inl (KeyError ''pos''))"

definition sel_slice :: "'a dataset \<Rightarrow> int \<Rightarrow> int \<Rightarrow> error + 'a dataset" where
  "sel_slice d a b =
     (case slice_bounds d a b of
        Inl e \<Rightarrow> Inl e
      | Inr (lo, hi) \<Rightarrow>
          Inr (d\<lparr>ds_pos := map_option (\<lambda>idx. drop lo (take hi idx)) (ds_pos d),
                ds_data := drop lo (take hi (ds_data d)),
                ds_codebook := drop lo (take hi (ds_codebook d))\<rparr>))"

text \<open>The first error of a list of results, or all the values.\<close>

fun collect :: "(error + 'b) list \<Rightarrow> error + 'b list" where
  "collect [] = Inr []"
| "collect (Inl e # rs) = Inl e"
| "collect (Inr v # rs) = (case collect rs of Inl e \<Rightarrow> Inl e | Inr vs \<Rightarrow> Inr (v # vs))"

text \<open>
  The place of one key of \<open>sel(pos=keys)\<close>, \<open>keys\<close> an integer array: an index
  into the dimension when it has no coordinate (numpy: negative indices count
  from the end, others out of range raise), the place of the label in the
  coordinate otherwise. A coordinate with a repeated label cannot be indexed
  by an array of labels (pandas \<open>get_indexer\<close>).
\<close>

definition key_loc :: "'a dataset \<Rightarrow> int \<Rightarrow> error + nat" where
  "key_loc d k =
     (case ds_pos d of
        None \<Rightarrow>
          (let n = int (length (ds_data d))
           in if 0 \<le> k \<and> k < n then Inr (nat k)
              else if - n \<le> k \<and> k < 0 then Inr (nat (k + n))
              else Inl (IndexError ''index out of bounds''))
      | Some idx \<Rightarrow>
          (case index_of k idx of
             None \<Rightarrow> Inl (KeyError ''not all values found in index pos'')
           | Some i \<Rightarrow> Inr i))"

definition sel_keys :: "'a dataset \<Rightarrow> int list \<Rightarrow> error + 'a dataset" where
  "sel_keys d keys =
     (if (case ds_pos d of None \<Rightarrow> False | Some idx \<Rightarrow> \<not> distinct idx)
      then Inl (InvalidIndexError ''Reindexing only valid with uniquely valued Index objects'')
      else case collect (map (key_loc d) keys) of
             Inl e \<Rightarrow> Inl e
           | Inr locs \<Rightarrow>
               Inr (d\<lparr>ds_pos := map_option (\<lambda>idx. map ((!) idx) locs) (ds_pos d),
                     ds_data := map ((!) (ds_data d)) locs,
                     ds_codebook := map ((!) (ds_codebook d)) locs\<rparr>))"

section \<open>\<open>fetch\<close>, \<open>fetch_regions\<close>, \<open>fetch_positions\<close>\<close>

text \<open>\<open>astype("uint32")\<close> on an integer.\<close>

definition astype_u32 :: "int \<Rightarrow> int" where
  "astype_u32 p = p mod 2 ^ 32"

text \<open>
  \<open>positions - self.offset\<close>, \<open>positions\<close> a \<open>uint32\<close> array and the offset
  a Python integer: the difference stays \<open>uint32\<close> and wraps around when the
  offset is itself in the range of \<open>uint32\<close>, and is computed in a wider
  signed type otherwise.
\<close>

definition sub_offset :: "int list \<Rightarrow> attr \<Rightarrow> error + int list" where
  "sub_offset positions off =
     (case attr_int off of
        Inl e \<Rightarrow> Inl e
      | Inr k \<Rightarrow>
          Inr (map (\<lambda>p. if 0 \<le> k \<and> k < 2 ^ 32 then astype_u32 (p - k) else p - k) positions))"

text \<open>\<open>_fetch_positions\<close>.\<close>

definition priv_fetch_positions ::
  "'a store \<Rightarrow> nat \<Rightarrow> int list \<Rightarrow> (error + nat) \<times> 'a store" where
  "priv_fetch_positions s self positions =
     (let positions' = map astype_u32 (sort positions)
      in case sub_offset positions' (offset s self) of
           Inl e \<Rightarrow> (Inl e, s)
         | Inr keys \<Rightarrow>
             (case sel_keys (objs s ! self) keys of
                Inl e \<Rightarrow> (Inl e, s)
              | Inr d \<Rightarrow>
                  (let (obj, s1) = new_obj s d;
                       s2 = copy_attrs s1 obj;
                       s3 = set_continuous s2 obj False;
                       s4 = set_pos s3 obj positions'
                   in (Inr obj, s4))))"

text \<open>Python's \<open>min\<close> and \<open>max\<close> of a sequence: a \<open>ValueError\<close> on an empty one.\<close>

fun py_min :: "int list \<Rightarrow> error + int" where
  "py_min [] = Inl (ValueError ''min() arg is an empty sequence'')"
| "py_min (p # ps) = Inr (fold min ps p)"

fun py_max :: "int list \<Rightarrow> error + int" where
  "py_max [] = Inl (ValueError ''max() arg is an empty sequence'')"
| "py_max (p # ps) = Inr (fold max ps p)"

text \<open>
  The three public selections call each other: \<open>fetch\<close> on a discontinuous
  dataset goes through \<open>fetch_regions\<close> and \<open>fetch_positions\<close>, and
  \<open>fetch_positions\<close> on a continuous one first narrows it with \<open>fetch\<close>.
  \<open>np.array(regions)\<close> of an empty list has one dimension, so that
  \<open>regions.shape[1]\<close> raises.
\<close>

function
  fetch :: "'a store \<Rightarrow> nat \<Rightarrow> int option \<Rightarrow> int option \<Rightarrow> (error + nat) \<times> 'a store" and
  fetch_regions :: "'a store \<Rightarrow> nat \<Rightarrow> (int \<times> int) list \<Rightarrow> (error + nat) \<times> 'a store" and
  fetch_positions :: "'a store \<Rightarrow> nat \<Rightarrow> int list \<Rightarrow> (error + nat) \<times> 'a store"
where
  "fetch s self start end' =
     (if start \<noteq> None \<or> end' \<noteq> None then
        (let start1 = (case start of None \<Rightarrow> 0 | Some v \<Rightarrow> v)
         in case (case end' of None \<Rightarrow> chrom_size s self | Some v \<Rightarrow> Inr v) of
              Inl e \<Rightarrow> (Inl e, s)
            | Inr end1 \<Rightarrow>
                if \<not> start1 < end1
                then (Inl (AssertionError ''start must be less than end.''), s)
                else if continuous s self then
                  (case attr_int (offset s self) of
                     Inl e \<Rightarrow> (Inl e, s)
                   | Inr off \<Rightarrow>
                       (case sel_slice (objs s ! self) (start1 - off) (end1 - off) of
                          Inl e \<Rightarrow> (Inl e, s)
                        | Inr d \<Rightarrow>
                            (let (obj, s1) = new_obj s d;
                                 s2 = copy_attrs s1 obj;
                                 s3 = set_attr s2 obj ''offset'' (AInt start1)
                             in (Inr obj, s3))))
                else fetch_regions s self [(start1, end1)])
      else (Inl (ValueError ''start and end cannot be both None.''), s))"
| "fetch_regions s self regions =
     (if regions = [] then (Inl (IndexError ''tuple index out of range''), s)
      else case regions_to_pos (map (\<lambda>(a, b). (word_of_int a, word_of_int b)) regions) of
             Inl e \<Rightarrow> (Inl e, s)
           | Inr pos_sel \<Rightarrow>
               (case fetch_positions s self (map uint pos_sel) of
                  (Inl e, s') \<Rightarrow> (Inl e, s')
                | (Inr obj, s') \<Rightarrow>
                    if \<not> continuous_is_False s' obj
                    then (Inl (AssertionError ''obj.continuous is False''), s')
                    else if \<not> offset_eq_0 s' obj
                    then (Inl (AssertionError ''obj.offset == 0''), s')
                    else (Inr obj, s')))"
| "fetch_positions s self positions =
     (if continuous s self then
        (case py_min positions of
           Inl e \<Rightarrow> (Inl e, s)
         | Inr pos_min \<Rightarrow>
             (case py_max positions of
                Inl e \<Rightarrow> (Inl e, s)
              | Inr m \<Rightarrow>
                  (case fetch s self (Some pos_min) (Some (m + 1)) of
                     (Inl e, s') \<Rightarrow> (Inl e, s')
                   | (Inr obj, s') \<Rightarrow> priv_fetch_positions s' obj positions)))
      else priv_fetch_positions s self positions)"
  by pat_completeness auto
termination
  by (relation "measure (\<lambda>x. case x of
        Inl (s, self, _, _) \<Rightarrow> if continuous s self then 0 else 3
      | Inr (Inl _) \<Rightarrow> 2
      | Inr (Inr _) \<Rightarrow> 1)") auto

declare fetch.simps [simp del] fetch_regions.simps [simp del] fetch_positions.simps [simp del]

section \<open>The codebook\<close>

text \<open>
  A \<open>Codebook\<close> as the property \<open>BaseDSChrom.codebook\<close> builds it: the labels
  of \<open>mc_type\<close>, the values along \<open>pos\<close> (one column per position), the index
  of \<open>pos\<close>, and the attributes \<open>c_pos\<close> and \<open>context_size\<close> taken from the
  dataset.
\<close>

record codebook =
  cb_mc_type :: "string list"
  cb_values :: "int list list"
  cb_pos :: "int list"
  cb_c_pos :: attr
  cb_context_size :: attr

definition codebook_of :: "'a store \<Rightarrow> nat \<Rightarrow> error + codebook" where
  "codebook_of s self =
     (case attrs_of s self ''c_pos'' of
        None \<Rightarrow> Inl (KeyError ''c_pos'')
      | Some c \<Rightarrow>
          (case attrs_of s self ''context_size'' of
             None \<Rightarrow> Inl (KeyError ''context_size'')
           | Some k \<Rightarrow>
               Inr \<lparr>cb_mc_type = ds_mc_type (objs s ! self),
                    cb_values = ds_codebook (objs s ! self),
                    cb_pos = pos_index (objs s ! self),
                    cb_c_pos = c, cb_context_size = k\<rparr>))"

text \<open>\<open>str.upper\<close> on the letters of ASCII, and \<open>v[i]\<close> on a string.\<close>

definition upper_char :: "char \<Rightarrow> char" where
  "upper_char c =
     (case map_of (zip ''abcdefghijklmnopqrstuvwxyz'' ''ABCDEFGHIJKLMNOPQRSTUVWXYZ'') c of
        None \<Rightarrow> c
      | Some u \<Rightarrow> u)"

definition upper :: "string \<Rightarrow> string" where
  "upper v = map upper_char v"

definition str_index :: "string \<Rightarrow> attr \<Rightarrow> error + char" where
  "str_index v i =
     (case attr_num i of
        None \<Rightarrow> Inl (TypeError ''string indices must be integers'')
      | Some k \<Rightarrow>
          (let n = int (length v)
           in if 0 \<le> k \<and> k < n then Inr (v ! nat k)
              else if - n \<le> k \<and> k < 0 then Inr (v ! nat (k + n))
              else Inl (IndexError ''string index out of range'')))"

definition validate_mc_pattern :: "codebook \<Rightarrow> string \<Rightarrow> error + string" where
  "validate_mc_pattern cb mc_pattern =
     (let mc_pattern1 = upper mc_pattern
      in if attr_num (cb_context_size cb) \<noteq> Some (int (length mc_pattern1))
         then Inl (ValueError ''The length of mc_pattern is not equal to context_size.'')
         else case str_index mc_pattern1 (cb_c_pos cb) of
                Inl e \<Rightarrow> Inl e
              | Inr c \<Rightarrow>
                  if c \<noteq> CHR ''C''
                  then Inl (ValueError ''The c_pos position in mc_pattern is not a cytosine.'')
                  else Inr mc_pattern1)"

text \<open>
  \<open>get_mc_pos_bool\<close>. \<open>parse_mc_pattern\<close> of \<open>ALLCools.utilities\<close> is not part of
  the sources at hand and is a parameter: it gives the labels a pattern
  denotes, or raises. \<open>judge\<close> marks the labels of \<open>mc_type\<close> among them; the
  values of the marked labels are summed at each position and the sum is cast
  to \<open>bool\<close>.
\<close>

definition get_mc_pos_bool ::
  "(string \<Rightarrow> error + string list) \<Rightarrow> codebook \<Rightarrow> string \<Rightarrow> error + bool list" where
  "get_mc_pos_bool parse_mc_pattern cb mc_pattern =
     (case validate_mc_pattern cb mc_pattern of
        Inl e \<Rightarrow> Inl e
      | Inr mc_pattern1 \<Rightarrow>
          (case parse_mc_pattern mc_pattern1 of
             Inl e \<Rightarrow> Inl e
           | Inr labels \<Rightarrow>
               (let judge = map (\<lambda>t. t \<in> set labels) (cb_mc_type cb)
                in Inr (map (\<lambda>col. sum_list (map snd (filter fst (zip judge col))) \<noteq> 0)
                         (cb_values cb)))))"

definition get_mc_pos ::
  "(string \<Rightarrow> error + string list) \<Rightarrow> codebook \<Rightarrow> string \<Rightarrow> attr option \<Rightarrow> error + int list" where
  "get_mc_pos parse_mc_pattern cb mc_pattern off =
     (case validate_mc_pattern cb mc_pattern of
        Inl e \<Rightarrow> Inl e
      | Inr mc_pattern1 \<Rightarrow>
          (case get_mc_pos_bool parse_mc_pattern cb mc_pattern1 of
             Inl e \<Rightarrow> Inl e
           | Inr bools \<Rightarrow>
               (let pos = map snd (filter fst (zip bools (cb_pos cb)))
                in case off of
                     None \<Rightarrow> Inr pos
                   | Some v \<Rightarrow>
                       (case attr_int v of
                          Inl e \<Rightarrow> Inl e
                        | Inr k \<Rightarrow> Inr (map (\<lambda>p. p + k) pos)))))"

definition select_mc_type ::
  "(string \<Rightarrow> error + string list) \<Rightarrow> 'a store \<Rightarrow> nat \<Rightarrow> string \<Rightarrow> (error + nat) \<times> 'a store" where
  "select_mc_type parse_mc_pattern s self pattern =
     (case codebook_of s self of
        Inl e \<Rightarrow> (Inl e, s)
      | Inr cb \<Rightarrow>
          (case get_mc_pos parse_mc_pattern cb pattern (Some (offset s self)) of
             Inl e \<Rightarrow> (Inl e, s)
           | Inr pattern_pos \<Rightarrow>
               (case fetch_positions s self pattern_pos of
                  (Inl e, s') \<Rightarrow> (Inl e, s')
                | (Inr ds, s') \<Rightarrow>
                    if \<not> continuous_is_False s' ds
                    then (Inl (AssertionError ''ds.continuous is False''), s')
                    else (Inr ds, s'))))"

section \<open>\<open>get_region_ds\<close>\<close>

text \<open>
  The table \<open>regions\<close>: its index name, and per row the index label and either
  two columns (start, end) or three (chrom, start, end). The result: the name
  of the region dimension, its labels and the summed data of each.
\<close>

datatype label = Lint int | Lstr string

datatype region_table =
    Table2 "string option" "(label \<times> int \<times> int) list"
  | Table3 "string option" "(label \<times> string \<times> int \<times> int) list"

record 'a region_ds =
  rd_dim :: string
  rd_labels :: "label list"
  rd_data :: "'a list"

text \<open>\<open>range(i, stop, step)\<close> for a positive step, the only one that reaches it.\<close>

function py_range :: "int \<Rightarrow> int \<Rightarrow> int \<Rightarrow> int list" where
  "py_range i stop step = (if 0 < step \<and> i < stop then i # py_range (i + step) stop step else [])"
  by pat_completeness auto
termination
  by (relation "measure (\<lambda>(i, stop, step). nat (stop - i))") auto

declare py_range.simps [simp del]

text \<open>
  Lines 425 to 429. The bounds are floating-point \<open>nan\<close> (here \<open>None\<close>) when
  they are computed from an empty index: pandas gives \<open>nan\<close> for the minimum
  of an empty index, and every comparison with \<open>nan\<close> is false.
\<close>

fun index_min :: "int list \<Rightarrow> int option" where
  "index_min [] = None"
| "index_min (p # ps) = Some (fold min ps p)"

fun index_max :: "int list \<Rightarrow> int option" where
  "index_max [] = None"
| "index_max (p # ps) = Some (fold max ps p)"

definition bin_bounds ::
  "'a store \<Rightarrow> nat \<Rightarrow> int option \<Rightarrow> int option \<Rightarrow> int option \<Rightarrow> error + int option \<times> int option" where
  "bin_bounds s self bin_size region_start region_end =
     (case bin_size of
        None \<Rightarrow> Inr (region_start, region_end)
      | Some b \<Rightarrow>
          if \<not> b > 1 then Inl (AssertionError ''bin_size must be greater than 1.'')
          else
            (let all_idx = pos_index (objs s ! self)
             in case (case region_start of
                        Some v \<Rightarrow> Inr (Some v)
                      | None \<Rightarrow> map_sum id (\<lambda>k. map_option (\<lambda>m. m + k) (index_min all_idx))
                                 (attr_int (offset s self))) of
                  Inl e \<Rightarrow> Inl e
                | Inr region_start1 \<Rightarrow>
                    (case (case region_end of
                             Some v \<Rightarrow> Inr (Some v)
                           | None \<Rightarrow> map_sum id (\<lambda>k. map_option (\<lambda>m. m + k) (index_max all_idx))
                                      (attr_int (offset s self))) of
                       Inl e \<Rightarrow> Inl e
                     | Inr region_end1 \<Rightarrow> Inr (region_start1, region_end1))))"

text \<open>
  \<open>regions.iloc[_chrom_sel, 1:]\<close> of line 434: \<open>_chrom_sel\<close> is a boolean
  \<open>Series\<close>, which \<open>iloc\<close> refuses as a mask, with an error that depends on
  whether the index of the table is an integer index (as the default index of
  a table without row is).
\<close>

definition iloc_mask_error :: "label list \<Rightarrow> error" where
  "iloc_mask_error index =
     (if list_all (\<lambda>l. case l of Lint i \<Rightarrow> True | Lstr v \<Rightarrow> False) index
      then NotImplementedError
             ''iLocation based boolean indexing on an integer type is not available''
      else ValueError ''iLocation based boolean indexing cannot use an indexable as a mask'')"

text \<open>
  Lines 431 to 436. A table of three columns does not get past the selection
  of the rows of the chromosome.
\<close>

definition region_rows ::
  "'a store \<Rightarrow> nat \<Rightarrow> region_table \<Rightarrow> error + (label \<times> int \<times> int) list" where
  "region_rows s self regions =
     (case (case regions of
              Table2 nm rows \<Rightarrow> Inr rows
            | Table3 nm rows \<Rightarrow>
                (case attrs_of s self ''chrom'' of
                   None \<Rightarrow> Inl (KeyError ''chrom'')
                 | Some c \<Rightarrow> Inl (iloc_mask_error (map (\<lambda>(l, ch, a, b). l) rows)))) of
        Inl e \<Rightarrow> Inl e
      | Inr rows \<Rightarrow>
          if rows = [] then Inl (AssertionError ''regions must have at least one row.'')
          else Inr rows)"

text \<open>
  \<open>_regions_to_pos(regions=regions)\<close> of line 441: the argument is the table
  itself, a pandas \<open>DataFrame\<close>, for which the compiler of \<open>_regions_to_pos\<close>
  has no type. The call raises before the loop runs.
\<close>

definition regions_to_pos_frame :: "(label \<times> int \<times> int) list \<Rightarrow> error + u32 list" where
  "regions_to_pos_frame regions =
     Inl (TypingError ''cannot determine Numba type of DataFrame'')"

definition index_name :: "region_table \<Rightarrow> string option" where
  "index_name regions = (case regions of Table2 nm rows \<Rightarrow> nm | Table3 nm rows \<Rightarrow> nm)"

text \<open>
  Lines 452 to 460: the edges of the bins of size \<open>bin_size\<close>.
  \<open>bins[-1]\<close> raises on an empty list.
\<close>

definition size_bins :: "int \<Rightarrow> int \<Rightarrow> int option \<Rightarrow> int option \<Rightarrow> error + int list" where
  "size_bins chrom_size1 bin_size region_start region_end =
     (let bins = filter (\<lambda>i. \<not> ((case region_start of None \<Rightarrow> False | Some a \<Rightarrow> i < a)
                                \<or> (case region_end of None \<Rightarrow> False | Some b \<Rightarrow> i > b)))
                   (py_range 0 chrom_size1 bin_size)
      in if bins = [] then Inl (IndexError ''list index out of range'')
         else
           (let bins1 = (case region_end of
                           None \<Rightarrow> bins
                         | Some b \<Rightarrow> if last bins < b then bins @ [b] else bins);
                bins2 = (case region_start of
                           None \<Rightarrow> bins1
                         | Some a \<Rightarrow> if hd bins1 > a then a # bins1 else bins1)
            in Inr bins2))"

text \<open>
  \<open>pandas.cut\<close> with \<open>right=True\<close> and \<open>include_lowest=True\<close>: the number of
  edges below \<open>x\<close> by binary search, the first edge itself put in the first
  bin, and no bin for a value below the first edge or above the last.
\<close>

definition cut_bin :: "int list \<Rightarrow> int \<Rightarrow> nat option" where
  "cut_bin bins x =
     (case bins of
        [] \<Rightarrow> None
      | b0 # _ \<Rightarrow>
          (let ids = (if x = b0 then 1 else length (filter (\<lambda>e. e < x) bins))
           in if ids = 0 \<or> ids = length bins then None else Some (ids - 1)))"

text \<open>
  \<open>groupby_bins(group="pos", bins, labels, right=True, include_lowest=True).sum(dim="pos")\<close>
  followed by \<open>fillna(0)\<close>: pandas refuses edges that decrease or repeat and
  labels that repeat, xarray refuses data of which nothing falls in a bin, and
  a bin without member, which xarray restores as missing, is filled with zero.
\<close>

definition groupby_bins_sum ::
  "int list \<Rightarrow> 'a::monoid_add list \<Rightarrow> int list \<Rightarrow> label list \<Rightarrow> error + 'a list" where
  "groupby_bins_sum positions vals bins labels =
     (if \<not> sorted bins then Inl (ValueError ''bins must increase monotonically.'')
      else if \<not> distinct bins \<and> length bins \<noteq> 2 then Inl (ValueError ''Bin edges must be unique'')
      else if \<not> distinct labels then Inl (ValueError ''labels must be unique if ordered=True'')
      else
        (let codes = map (cut_bin bins) positions
         in if list_all (\<lambda>c. c = None) codes
            then Inl (ValueError ''None of the data falls within bins'')
            else Inr (map (\<lambda>k. sum_list (map snd (filter (\<lambda>(c, v). c = Some k) (zip codes vals))))
                       [0 ..< length labels])))"

text \<open>
  \<open>get_region_ds\<close>. \<open>pos_idx.intersection\<close> keeps the positions that are in
  some region, each once; with \<open>regions\<close> given the call does not get that
  far. The chunking of the result does not change its values and is left out.
\<close>

definition get_region_ds ::
  "(string \<Rightarrow> error + string list) \<Rightarrow> 'a::monoid_add store \<Rightarrow> nat \<Rightarrow> string \<Rightarrow>
   int option \<Rightarrow> region_table option \<Rightarrow> string option \<Rightarrow> int option \<Rightarrow> int option \<Rightarrow>
   (error + 'a region_ds) \<times> 'a store" where
  "get_region_ds parse_mc_pattern s self mc_type bin_size regions region_name
       region_start region_end =
     (if bin_size = None \<and> regions = None
      then (Inl (ValueError ''One of bin_size or regions must be specified.''), s)
      else case bin_bounds s self bin_size region_start region_end of
        Inl e \<Rightarrow> (Inl e, s)
      | Inr (region_start1, region_end1) \<Rightarrow>
      (case (case regions of
               None \<Rightarrow> Inr None
             | Some t \<Rightarrow> map_sum id Some (region_rows s self t)) of
        Inl e \<Rightarrow> (Inl e, s)
      | Inr rows \<Rightarrow>
      (case codebook_of s self of
        Inl e \<Rightarrow> (Inl e, s)
      | Inr cb \<Rightarrow>
      (case get_mc_pos parse_mc_pattern cb mc_type (Some (offset s self)) of
        Inl e \<Rightarrow> (Inl e, s)
      | Inr pos_idx0 \<Rightarrow>
      (case (case rows of
               None \<Rightarrow> Inr pos_idx0
             | Some rs \<Rightarrow>
                 map_sum id
                   (\<lambda>region_pos_idx. remdups (filter (\<lambda>p. p \<in> set (map uint region_pos_idx)) pos_idx0))
                   (regions_to_pos_frame rs)) of
        Inl e \<Rightarrow> (Inl e, s)
      | Inr pos_idx \<Rightarrow>
      (case fetch_positions s self pos_idx of
        (Inl e, s') \<Rightarrow> (Inl e, s')
      | (Inr base_ds, s') \<Rightarrow>
      (case (case rows of
               Some rs \<Rightarrow>
                 Inr (map (\<lambda>(l, a, b). a) rs @ [snd (snd (last rs))],
                      map (\<lambda>(l, a, b). l) rs,
                      (case regions of None \<Rightarrow> None | Some t \<Rightarrow> index_name t))
             | None \<Rightarrow>
                 (case chrom_size s self of
                    Inl e \<Rightarrow> Inl e
                  | Inr cs \<Rightarrow>
                      (case size_bins cs (case bin_size of None \<Rightarrow> 0 | Some b \<Rightarrow> b)
                              region_start1 region_end1 of
                         Inl e \<Rightarrow> Inl e
                       | Inr bins \<Rightarrow> Inr (bins, map Lint (butlast bins), region_name)))) of
        Inl e \<Rightarrow> (Inl e, s')
      | Inr (bins, labels, region_name1) \<Rightarrow>
      (case (if pos_idx = [] then Inr (map (\<lambda>l. 0) labels)
             else groupby_bins_sum (pos_index (objs s' ! base_ds))
                    (ds_data (objs s' ! base_ds)) bins labels) of
        Inl e \<Rightarrow> (Inl e, s')
      | Inr sums \<Rightarrow>
          (Inr \<lparr>rd_dim = (case region_name1 of None \<Rightarrow> ''pos_bins'' | Some n \<Rightarrow> n),
                rd_labels = labels, rd_data = sums\<rparr>, s')))))))))"

section \<open>Well-formed datasets and sequences of queries\<close>

text \<open>
  The invariant of the data model. A continuous dataset has no coordinate on
  \<open>pos\<close>: its positions are \<open>offset + i\<close>. A discontinuous one has offset 0 and,
  when it has a coordinate, one label per position, none repeated. All
  positions are in the range of \<open>uint32\<close>, the type the source gives them.
\<close>

definition wf :: "'a store \<Rightarrow> nat \<Rightarrow> bool" where
  "wf s self =
     (self < length (objs s) \<and> ds_attrs (objs s ! self) < length (dicts s)
      \<and> length (ds_codebook (objs s ! self)) = length (ds_data (objs s ! self))
      \<and> (if continuous s self
         then ds_pos (objs s ! self) = None
           \<and> (case offset s self of
                AInt off \<Rightarrow> 0 \<le> off \<and> off + int (length (ds_data (objs s ! self))) \<le> 2 ^ 32
              | _ \<Rightarrow> False)
         else offset s self = AInt 0
           \<and> (case ds_pos (objs s ! self) of
                None \<Rightarrow> int (length (ds_data (objs s ! self))) \<le> 2 ^ 32
              | Some idx \<Rightarrow> length idx = length (ds_data (objs s ! self)) \<and> distinct idx
                  \<and> list_all (\<lambda>p. 0 \<le> p \<and> p < 2 ^ 32) idx)))"




section \<open>Notions used to state the properties\<close>

text \<open>
  \<open>extends s s'\<close>: every object and every dictionary of \<open>s\<close> is in \<open>s'\<close> at the
  same address and with the same content; \<open>s'\<close> may hold new ones.
\<close>

definition extends :: "'a store \<Rightarrow> 'a store \<Rightarrow> bool" where
  "extends s s' =
     (take (length (objs s)) (objs s') = objs s \<and> take (length (dicts s)) (dicts s') = dicts s)"

text \<open>
  What a caller sees of the result of a selection: the error, or the variables
  and the attributes of the dataset returned (not its address).
\<close>

definition outcome :: "(error + nat) \<times> 'a store \<Rightarrow> error + 'a dataset \<times> attrs" where
  "outcome r =
     (case r of
        (Inl e, s) \<Rightarrow> Inl e
      | (Inr obj, s) \<Rightarrow> Inr ((objs s ! obj)\<lparr>ds_attrs := 0\<rparr>, attrs_of s obj))"

text \<open>
  A store for examples. Object 0 is a chromosome of ten positions as it is
  opened from storage, continuous, with the contexts \<open>CGA\<close> at 1 and 7 and
  \<open>CGT\<close> at 4; object 1 is the discontinuous dataset of the positions 1, 4, 7.
\<close>

definition example_store :: "int store" where
  "example_store =
     \<lparr>objs =
        [\<lparr>ds_pos = None, ds_data = [10, 11, 12, 13, 14, 15, 16, 17, 18, 19],
          ds_codebook = [[0, 0, 0], [1, 0, 0], [0, 0, 0], [0, 0, 0], [0, - 1, 0],
                         [0, 0, 0], [0, 0, 0], [1, 0, 0], [0, 0, 0], [0, 0, 0]],
          ds_mc_type = [''CGA'', ''CGT'', ''CAA''], ds_attrs = 0\<rparr>,
         \<lparr>ds_pos = Some [1, 4, 7], ds_data = [11, 14, 17],
          ds_codebook = [[1, 0, 0], [0, - 1, 0], [1, 0, 0]],
          ds_mc_type = [''CGA'', ''CGT'', ''CAA''], ds_attrs = 1\<rparr>],
      dicts =
        [[''continuous'' \<mapsto> ABool True, ''chrom'' \<mapsto> AStr ''chr1'', ''chrom_size'' \<mapsto> AInt 10,
          ''c_pos'' \<mapsto> AInt 0, ''context_size'' \<mapsto> AInt 3],
         [''continuous'' \<mapsto> ABool False, ''chrom'' \<mapsto> AStr ''chr1'', ''chrom_size'' \<mapsto> AInt 10,
          ''c_pos'' \<mapsto> AInt 0, ''context_size'' \<mapsto> AInt 3]]\<rparr>"

text \<open>
  A second store for examples. Object 0 is a continuous dataset of three
  positions in whose codebook the labels \<open>CGA\<close> and \<open>CGT\<close> have the values
  1 and -1 at position 0, only \<open>CGA\<close> has a value at position 1, and no label
  has one at position 2. Object 1 is a discontinuous dataset with the same
  variables and the coordinate 0, 1, 2.
\<close>

definition example_store2 :: "int store" where
  "example_store2 =
     \<lparr>objs =
        [\<lparr>ds_pos = None, ds_data = [20, 21, 22],
          ds_codebook = [[1, - 1, 0], [1, 0, 0], [0, 0, 0]],
          ds_mc_type = [''CGA'', ''CGT'', ''CAA''], ds_attrs = 0\<rparr>,
         \<lparr>ds_pos = Some [0, 1, 2], ds_data = [20, 21, 22],
          ds_codebook = [[1, - 1, 0], [1, 0, 0], [0, 0, 0]],
          ds_mc_type = [''CGA'', ''CGT'', ''CAA''], ds_attrs = 1\<rparr>],
      dicts =
        [[''continuous'' \<mapsto> ABool True, ''chrom'' \<mapsto> AStr ''chr1'', ''chrom_size'' \<mapsto> AInt 3,
          ''c_pos'' \<mapsto> AInt 0, ''context_size'' \<mapsto> AInt 3],
         [''continuous'' \<mapsto> ABool False, ''chrom'' \<mapsto> AStr ''chr1'', ''chrom_size'' \<mapsto> AInt 3,
          ''c_pos'' \<mapsto> AInt 0, ''context_size'' \<mapsto> AInt 3]]\<rparr>"

text \<open>
  Modelled from the spec: \<open>parse_mc_pattern\<close> of \<open>ALLCools.utilities\<close> is not among
  the sources; it expands a pattern into the set of context labels the pattern
  denotes. Here it is given on the two patterns of the examples, in which \<open>N\<close>
  stands for any nucleotide or \<open>N\<close> itself.
\<close>

definition example_parse :: "string \<Rightarrow> error + string list" where
  "example_parse p =
     (if p = ''CGN'' then Inr [''CGA'', ''CGT'', ''CGC'', ''CGG'', ''CGN'']
      else if p = ''CAN'' then Inr [''CAA'', ''CAT'', ''CAC'', ''CAG'', ''CAN'']
      else Inr [p])"

text \<open>
  The values of the codebook at the place \<open>i\<close> of the \<open>pos\<close> dimension for
  the labels of \<open>mc_type\<close> that are among \<open>labels\<close>.
\<close>

definition selected_values :: "codebook \<Rightarrow> string list \<Rightarrow> nat \<Rightarrow> int list" where
  "selected_values cb labels i =
     map snd (filter (\<lambda>(t, v). t \<in> set labels) (zip (cb_mc_type cb) (cb_values cb ! i)))"

text \<open>The codebook of the datasets of the second store.\<close>

definition example_codebook :: codebook where
  "example_codebook =
     \<lparr>cb_mc_type = [''CGA'', ''CGT'', ''CAA''],
      cb_values = [[1, - 1, 0], [1, 0, 0], [0, 0, 0]],
      cb_pos = [0, 1, 2], cb_c_pos = AInt 0, cb_context_size = AInt 3\<rparr>"

text \<open>
  The outcome of \<open>_fetch_positions\<close>, of \<open>fetch\<close> on a continuous dataset and
  of \<open>fetch_positions\<close>, written as functions of the variables and the
  attributes of the source alone. They are shown below to give the outcome of
  the operations on the store, whatever else the store holds.
\<close>

definition attrs_continuous :: "attrs \<Rightarrow> bool" where
  "attrs_continuous a = (case a ''continuous'' of None \<Rightarrow> False | Some v \<Rightarrow> truthy v)"

definition attrs_offset :: "attrs \<Rightarrow> attr" where
  "attrs_offset a = (case a ''offset'' of None \<Rightarrow> AInt 0 | Some v \<Rightarrow> v)"

definition priv_fetch_positions_view ::
  "'a dataset \<Rightarrow> attrs \<Rightarrow> int list \<Rightarrow> error + 'a dataset \<times> attrs" where
  "priv_fetch_positions_view d a positions =
     (case sub_offset (map astype_u32 (sort positions)) (attrs_offset a) of
        Inl e \<Rightarrow> Inl e
      | Inr keys \<Rightarrow>
          (case sel_keys d keys of
             Inl e \<Rightarrow> Inl e
           | Inr d' \<Rightarrow>
               Inr (d'\<lparr>ds_pos := Some (map astype_u32 (sort positions)), ds_attrs := 0\<rparr>,
                    a(''continuous'' \<mapsto> ABool False, ''offset'' := None))))"

definition fetch_continuous_view ::
  "'a dataset \<Rightarrow> attrs \<Rightarrow> int \<Rightarrow> int \<Rightarrow> error + 'a dataset \<times> attrs" where
  "fetch_continuous_view d a start end' =
     (if \<not> start < end' then Inl (AssertionError ''start must be less than end.'')
      else case attr_int (attrs_offset a) of
             Inl e \<Rightarrow> Inl e
           | Inr off \<Rightarrow>
               (case sel_slice d (start - off) (end' - off) of
                  Inl e \<Rightarrow> Inl e
                | Inr d' \<Rightarrow> Inr (d'\<lparr>ds_attrs := 0\<rparr>, a(''offset'' \<mapsto> AInt start))))"

definition fetch_positions_view ::
  "'a dataset \<Rightarrow> attrs \<Rightarrow> int list \<Rightarrow> error + 'a dataset \<times> attrs" where
  "fetch_positions_view d a positions =
     (if attrs_continuous a then
        (case py_min positions of
           Inl e \<Rightarrow> Inl e
         | Inr pos_min \<Rightarrow>
             (case py_max positions of
                Inl e \<Rightarrow> Inl e
              | Inr m \<Rightarrow>
                  (case fetch_continuous_view d a pos_min (m + 1) of
                     Inl e \<Rightarrow> Inl e
                   | Inr (d1, a1) \<Rightarrow> priv_fetch_positions_view d1 a1 positions)))
      else priv_fetch_positions_view d a positions)"

section \<open>Rules for evaluating the definitions on examples\<close>

lemmas example_defs = example_store_def example_store2_def example_parse_def
lemmas store_defs = new_obj_def copy_attrs_def attrs_of_def set_attr_def set_continuous_def
  pop_attr_def set_pos_def continuous_def offset_def attr_int_def continuous_is_False_def
  offset_eq_0_def chrom_size_def
lemmas sel_defs = sel_slice_def slice_bounds_def clip_index_def sel_keys_def key_loc_def
  sub_offset_def astype_u32_def pos_index_def genomic_position_def
lemmas fetch_defs = fetch.simps fetch_regions.simps fetch_positions.simps priv_fetch_positions_def

lemmas region_defs = get_region_ds_def bin_bounds_def region_rows_def index_name_def
  size_bins_def cut_bin_def groupby_bins_sum_def codebook_of_def validate_mc_pattern_def
  upper_def upper_char_def str_index_def get_mc_pos_bool_def get_mc_pos_def select_mc_type_def
  py_range.simps regions_to_pos_def arange_u32_def set_slice_def regions_to_pos_frame_def
  iloc_mask_error_def

section \<open>Properties of interval expansion\<close>

lemma length_arange_u32: "length (arange_u32 s e) = unat e - unat s"
  by (simp add: arange_u32_def)

lemma unat_sub_le: "s \<le> e \<Longrightarrow> unat (e - s) = unat e - unat s"
  for s e :: u32
  by (simp add: unat_sub)

lemma uint_sub_le: "s \<le> e \<Longrightarrow> uint e - uint s = int (unat e - unat s)"
  for s e :: u32
  by (simp add: word_le_nat_alt of_nat_diff)

lemma arange_u32_run:
  "arange_u32 s e = map (\<lambda>k. s + word_of_nat k) [0 ..< unat e - unat s]"
proof -
  have "[unat s ..< unat e] = map (\<lambda>k. unat s + k) [0 ..< unat e - unat s]"
  proof (cases "unat s \<le> unat e")
    case True
    then show ?thesis by (simp add: map_add_upt add.commute)
  next
    case False
    then show ?thesis by simp
  qed
  then show ?thesis
    by (simp add: arange_u32_def)
qed

lemma set_slice_exact:
  "l + length vals \<le> length buf \<Longrightarrow>
   set_slice buf (int l) (int l + int (length vals)) vals =
     Inr (take l buf @ vals @ drop (l + length vals) buf)"
  by (simp add: set_slice_def clip_index_def Let_def min_def max_def nat_add_distrib)

lemma fill_regions_run:
  "\<forall>(s, e) \<in> set regions. s \<le> e \<Longrightarrow>
   int (length done) = cur_pos \<Longrightarrow>
   length rest = sum_list (map (\<lambda>(s, e). unat e - unat s) regions) \<Longrightarrow>
   fill_regions regions cur_pos (done @ rest) =
     Inr (done @ concat (map (\<lambda>(s, e). arange_u32 s e) regions))"
proof (induction regions arbitrary: cur_pos "done" rest)
  case Nil
  then show ?case by simp
next
  case (Cons r regions)
  obtain s e where r: "r = (s, e)" by (cases r)
  from Cons.prems(1) r have se: "s \<le> e" by simp
  let ?run = "arange_u32 s e"
  let ?k = "unat e - unat s"
  have len: "uint e - uint s = int ?k" using se by (rule uint_sub_le)
  have lrun: "length ?run = ?k" by (rule length_arange_u32)
  from Cons.prems(3) r have lrest: "length rest = ?k + sum_list (map (\<lambda>(s, e). unat e - unat s) regions)"
    by simp
  have fits: "length done + length ?run \<le> length (done @ rest)"
    using lrest lrun by simp
  have step: "set_slice (done @ rest) cur_pos (cur_pos + int ?k) ?run =
      Inr ((done @ ?run) @ drop ?k rest)"
    using set_slice_exact [OF fits] Cons.prems(2) lrun by simp
  have rec: "fill_regions regions (cur_pos + int ?k) ((done @ ?run) @ drop ?k rest) =
      Inr ((done @ ?run) @ concat (map (\<lambda>(s, e). arange_u32 s e) regions))"
  proof (rule Cons.IH)
    show "\<forall>(s, e) \<in> set regions. s \<le> e" using Cons.prems(1) by simp
    show "int (length (done @ ?run)) = cur_pos + int ?k" using Cons.prems(2) lrun by simp
    show "length (drop ?k rest) = sum_list (map (\<lambda>(s, e). unat e - unat s) regions)"
      using lrest by simp
  qed
  show ?case
    using step rec by (simp add: r len)
qed

lemma sum_delta:
  "\<forall>(s, e) \<in> set regions. s \<le> e \<Longrightarrow>
   sum_list (map unat (map (\<lambda>(s, e). e - s) regions)) =
     sum_list (map (\<lambda>(s, e). unat e - unat s) regions)"
  for regions :: "(u32 \<times> u32) list"
  by (induction regions) (auto simp: unat_sub_le)

lemma regions_to_pos_le:
  assumes "\<forall>(s, e) \<in> set regions. s \<le> e"
  shows "regions_to_pos regions = Inr (concat (map (\<lambda>(s, e). arange_u32 s e) regions))"
proof -
  have "fill_regions regions 0
      ([] @ replicate (sum_list (map (\<lambda>(s, e). unat e - unat s) regions)) 0) =
      Inr ([] @ concat (map (\<lambda>(s, e). arange_u32 s e) regions))"
    by (rule fill_regions_run [OF assms]) simp_all
  then show ?thesis
    unfolding regions_to_pos_def Let_def sum_delta [OF assms] by simp
qed

text \<open>
  C3. For every array of pairs with \<open>start < end\<close>, \<open>_regions_to_pos\<close> returns the
  concatenation, in the order of the input, of the runs
  \<open>start, start + 1, \<dots>, end - 1\<close>; its length is the sum of \<open>end - start\<close>.
  Nothing is deduplicated: the runs of overlapping intervals all appear.
\<close>

theorem regions_to_pos_concat_runs:
  assumes "\<forall>(start, end') \<in> set regions. start < end'"
  shows "\<exists>pos_sel. regions_to_pos regions = Inr pos_sel
    \<and> pos_sel = concat (map (\<lambda>(start, end').
          map (\<lambda>k. start + word_of_nat k) [0 ..< unat end' - unat start]) regions)
    \<and> length pos_sel = sum_list (map (\<lambda>(start, end'). unat end' - unat start) regions)"
proof -
  from assms have le: "\<forall>(s, e) \<in> set regions. s \<le> e" by auto
  have runs: "map (\<lambda>(s, e). arange_u32 s e) regions =
      map (\<lambda>(s, e). map (\<lambda>k. s + word_of_nat k) [0 ..< unat e - unat s]) regions"
    by (simp add: arange_u32_run)
  have len: "length (concat (map (\<lambda>(s, e). arange_u32 s e) regions)) =
      sum_list (map (\<lambda>(s, e). unat e - unat s) regions)"
    by (induction regions) (auto simp: length_arange_u32)
  show ?thesis
    unfolding regions_to_pos_le [OF le] using len unfolding runs by simp
qed

theorem regions_to_pos_concat_runs_witness:
  "regions_to_pos [(2, 4), (6, 9), (3, 5)] = Inr [2, 3, 6, 7, 8, 3, 4]"
  using regions_to_pos_concat_runs [of "[(2, 4), (6, 9), (3, 5)]"]
  by (simp add: upt_conv_Cons)

lemma uint_max_u32: "uint (- 1 :: u32) = 4294967295"
  using uint_word_of_int [of "- 1", where 'a = 32] by simp

lemma unat_max_u32: "unat (- 1 :: u32) = 4294967295"
  using uint_max_u32 by (simp only: unat_eq_nat_uint)

lemma replicate_3: "replicate 3 x = [x, x, x]"
  by (simp add: numeral_3_eq_3)

text \<open>
  An interval whose end is below its start takes no place in the buffer: the
  length \<open>end - start\<close> of the loop is negative, the slice it addresses is empty
  and so is the run. The buffer keeps the size given by the wrapped differences
  and stays filled with zeros.
\<close>

lemma regions_to_pos_negative:
  "regions_to_pos [(word_of_int (- 1), word_of_int 2)] = Inr [0, 0, 0]"
  by (simp add: regions_to_pos_def arange_u32_def set_slice_def clip_index_def
      unat_max_u32 uint_max_u32 Let_def replicate_3)

section \<open>The store is only extended\<close>

lemma extends_refl: "extends s s"
  by (simp add: extends_def)

lemma extends_trans: "extends s s1 \<Longrightarrow> extends s1 s2 \<Longrightarrow> extends s s2"
  unfolding extends_def
  by (metis append_take_drop_id length_take min.absorb2 nat_le_linear take_all take_append take_take  min.cobounded1 append_eq_conv_conj)

lemma derive_store:
  "(let (obj, s1) = new_obj s d; s2 = copy_attrs s1 obj in (obj, s2)) =
     (length (objs s),
      s\<lparr>objs := objs s @ [d\<lparr>ds_attrs := length (dicts s)\<rparr>],
        dicts := dicts s @ [dicts s ! ds_attrs d]\<rparr>)"
  by (simp add: new_obj_def copy_attrs_def attrs_of_def)

lemma fetch_continuous_store:
  assumes "continuous s self" and "attr_int (offset s self) = Inr off" and "a < b"
    and "sel_slice (objs s ! self) (a - off) (b - off) = Inr d"
  shows "fetch s self (Some a) (Some b) =
     (Inr (length (objs s)),
      s\<lparr>objs := objs s @ [d\<lparr>ds_attrs := length (dicts s)\<rparr>],
        dicts := dicts s @ [(dicts s ! ds_attrs d)(''offset'' \<mapsto> AInt a)]\<rparr>)"
  using assms
  by (simp add: fetch.simps new_obj_def copy_attrs_def attrs_of_def set_attr_def)

lemma priv_fetch_positions_store:
  assumes "sub_offset (map astype_u32 (sort positions)) (offset s self) = Inr keys"
    and "sel_keys (objs s ! self) keys = Inr d"
  shows "priv_fetch_positions s self positions =
     (Inr (length (objs s)),
      s\<lparr>objs := objs s @ [d\<lparr>ds_pos := Some (map astype_u32 (sort positions)), ds_attrs := length (dicts s)\<rparr>],
        dicts := dicts s @ [(dicts s ! ds_attrs d)(''continuous'' \<mapsto> ABool False, ''offset'' := None)]\<rparr>)"
  using assms
  by (simp add: priv_fetch_positions_def new_obj_def copy_attrs_def attrs_of_def set_attr_def
      set_continuous_def pop_attr_def set_pos_def)

lemma priv_fetch_positions_extends:
  "priv_fetch_positions s self positions = (r, s') \<Longrightarrow> extends s s'"
  by (auto simp: priv_fetch_positions_def extends_def new_obj_def copy_attrs_def attrs_of_def
      set_attr_def set_continuous_def pop_attr_def set_pos_def Let_def split: sum.splits)

lemma fetch_continuous_extends:
  "continuous s self \<Longrightarrow> fetch s self start end' = (r, s') \<Longrightarrow> extends s s'"
  by (auto simp: fetch.simps extends_def new_obj_def copy_attrs_def attrs_of_def
      set_attr_def Let_def split: sum.splits option.splits if_splits)

lemma fetch_positions_extends:
  assumes "fetch_positions s self positions = (r, s')"
  shows "extends s s'"
proof (cases "continuous s self")
  case False
  then show ?thesis
    using assms by (simp add: fetch_positions.simps priv_fetch_positions_extends)
next
  case True
  show ?thesis
  proof (cases "py_min positions")
    case (Inl e)
    then show ?thesis using True assms by (auto simp: fetch_positions.simps extends_refl)
  next
    case pmin: (Inr pos_min)
    show ?thesis
    proof (cases "py_max positions")
      case (Inl e)
      then show ?thesis using True pmin assms by (auto simp: fetch_positions.simps extends_refl)
    next
      case pmax: (Inr m)
      obtain r1 s1 where f: "fetch s self (Some pos_min) (Some (m + 1)) = (r1, s1)"
        by (cases "fetch s self (Some pos_min) (Some (m + 1))")
      have e1: "extends s s1"
        using fetch_continuous_extends [OF True f] .
      show ?thesis
      proof (cases r1)
        case (Inl e)
        then show ?thesis using True pmin pmax f e1 assms by (auto simp: fetch_positions.simps)
      next
        case (Inr obj)
        then have "priv_fetch_positions s1 obj positions = (r, s')"
          using True pmin pmax f assms by (simp add: fetch_positions.simps)
        then have "extends s1 s'"
          by (rule priv_fetch_positions_extends)
        with e1 show ?thesis
          by (rule extends_trans)
      qed
    qed
  qed
qed





section \<open>\<open>fetch\<close> on a continuous dataset\<close>

lemma filter_upt_range:
  "filter (\<lambda>i. lo \<le> i \<and> i < hi) [0 ..< n] = [lo ..< min hi n]"
proof (induction n)
  case 0
  then show ?case by simp
next
  case (Suc n)
  consider "n < hi" "lo \<le> n" | "n < hi" "n < lo" | "hi \<le> n"
    by linarith
  then show ?case
  proof cases
    case 1
    then have "min hi n = n" "min hi (Suc n) = Suc n" by simp_all
    with 1 Suc show ?thesis by simp
  next
    case 2
    then have "min hi n = n" "min hi (Suc n) = Suc n" by simp_all
    with 2 Suc show ?thesis by simp
  next
    case 3
    then have "min hi n = hi" "min hi (Suc n) = hi" by simp_all
    with 3 Suc show ?thesis by simp
  qed
qed

lemma clip_index_le: "clip_index i n \<le> n"
  by (auto simp: clip_index_def max_def)

lemma upt_shift: "[lo ..< m] = map (\<lambda>i. i + lo) [0 ..< m - lo]"
proof (cases "lo \<le> m")
  case True
  then show ?thesis by (simp add: map_add_upt)
next
  case False
  then show ?thesis by simp
qed

lemma sel_slice_no_coord:
  "ds_pos d = None \<Longrightarrow>
   sel_slice d a b =
     Inr (d\<lparr>ds_pos := None,
           ds_data := drop (clip_index a (length (ds_data d)))
                        (take (clip_index b (length (ds_data d))) (ds_data d)),
           ds_codebook := drop (clip_index a (length (ds_data d)))
                        (take (clip_index b (length (ds_data d))) (ds_codebook d))\<rparr>)"
  by (simp add: sel_slice_def slice_bounds_def)

lemma window_positions:
  assumes "off \<le> start" and "start < end'"
  shows "map (\<lambda>p. p + start)
           (map int [0 ..< min (nat (end' - off)) n - min (nat (start - off)) n]) =
         filter (\<lambda>p. start \<le> p \<and> p < end') (map (\<lambda>p. p + off) (map int [0 ..< n]))"
proof -
  let ?lo = "nat (start - off)" and ?hi = "nat (end' - off)"
  have "filter (\<lambda>p. start \<le> p \<and> p < end') (map (\<lambda>p. p + off) (map int [0 ..< n])) =
      map (\<lambda>i. int i + off) (filter (\<lambda>i. ?lo \<le> i \<and> i < ?hi) [0 ..< n])"
  proof -
    have "(\<lambda>x. start \<le> int x + off \<and> int x + off < end') =
        (\<lambda>i. ?lo \<le> i \<and> i < ?hi)"
      using assms by (intro ext) auto
    then show ?thesis
      by (simp add: filter_map comp_def)
  qed
  also have "\<dots> = map (\<lambda>i. int i + off) [?lo ..< min ?hi n]"
    by (simp only: filter_upt_range)
  also have "\<dots> = map (\<lambda>i. int i + start) [0 ..< min ?hi n - min ?lo n]"
  proof (cases "?lo \<le> n")
    case True
    have "[?lo ..< min ?hi n] = map (\<lambda>i. i + ?lo) [0 ..< min ?hi n - ?lo]"
      by (rule upt_shift)
    then show ?thesis
      using True assms by (simp add: comp_def min_def)
  next
    case False
    then show ?thesis by simp
  qed
  finally show ?thesis by (simp add: comp_def)
qed

text \<open>
  C1. On a continuous dataset with offset \<open>off\<close>, \<open>fetch(start, end)\<close> with
  \<open>off \<le> start < end\<close> returns a dataset whose positions are exactly the
  positions of the source in the half-open interval from \<open>start\<close> to \<open>end\<close>;
  the result is continuous and its offset is \<open>start\<close>.
\<close>

theorem fetch_continuous_range:
  assumes "wf s self" and "continuous s self" and "genomic_position s self = Inr window"
    and "offset s self = AInt off" and "off \<le> start" and "start < end'"
  shows "\<exists>obj s'. fetch s self (Some start) (Some end') = (Inr obj, s')
    \<and> genomic_position s' obj = Inr (filter (\<lambda>p. start \<le> p \<and> p < end') window)
    \<and> continuous s' obj \<and> offset s' obj = AInt start"
proof -
  let ?d = "objs s ! self"
  let ?n = "length (ds_data ?d)"
  from assms(1,2) have nocoord: "ds_pos ?d = None"
    by (simp add: wf_def)
  have off: "attr_int (offset s self) = Inr off"
    using assms(4) by (simp add: attr_int_def)
  from assms(3) off nocoord have window: "window = map (\<lambda>p. p + off) (map int [0 ..< ?n])"
    by (simp add: genomic_position_def pos_index_def)
  let ?lo = "clip_index (start - off) ?n" and ?hi = "clip_index (end' - off) ?n"
  let ?d1 = "?d\<lparr>ds_pos := None, ds_data := drop ?lo (take ?hi (ds_data ?d)),
      ds_codebook := drop ?lo (take ?hi (ds_codebook ?d))\<rparr>"
  let ?obj = "length (objs s)"
  let ?s' = "s\<lparr>objs := objs s @ [?d1\<lparr>ds_attrs := length (dicts s)\<rparr>],
      dicts := dicts s @ [(dicts s ! ds_attrs ?d1)(''offset'' \<mapsto> AInt start)]\<rparr>"
  have f: "fetch s self (Some start) (Some end') = (Inr ?obj, ?s')"
    by (rule fetch_continuous_store [OF assms(2) off assms(6) sel_slice_no_coord [OF nocoord]])
  have cont: "continuous ?s' ?obj"
    using assms(2) by (simp add: continuous_def attrs_of_def)
  have offs: "offset ?s' ?obj = AInt start"
    by (simp add: offset_def attrs_of_def)
  have clip: "?lo = min (nat (start - off)) ?n" "?hi = min (nat (end' - off)) ?n"
    using assms(5,6) by (simp_all add: clip_index_def)
  have "genomic_position ?s' ?obj =
      Inr (map (\<lambda>p. p + start) (map int [0 ..< ?hi - ?lo]))"
    unfolding genomic_position_def offs
    by (simp add: attr_int_def pos_index_def min_absorb2 clip_index_le)
  also have "\<dots> = Inr (filter (\<lambda>p. start \<le> p \<and> p < end') window)"
    unfolding window clip using window_positions [OF assms(5,6)] by simp
  finally show ?thesis
    using f cont offs by blast
qed

theorem fetch_continuous_range_witness:
  "\<exists>s'. fetch example_store 0 (Some 2) (Some 5) = (Inr 2, s')
     \<and> genomic_position s' 2 = Inr [2, 3, 4] \<and> continuous s' 2 \<and> offset s' 2 = AInt 2"
proof -
  have 1: "wf example_store 0"
    by (simp add: wf_def example_store_def store_defs)
  have 2: "continuous example_store 0"
    by (simp add: example_store_def store_defs)
  have 3: "genomic_position example_store 0 = Inr [0, 1, 2, 3, 4, 5, 6, 7, 8, 9]"
    by (simp add: example_store_def store_defs sel_defs upt_conv_Cons)
  have 4: "offset example_store 0 = AInt 0"
    by (simp add: example_store_def store_defs)
  have 5: "length (objs example_store) = 2"
    by (simp add: example_store_def)
  from fetch_continuous_range [OF 1 2 3 4, of 2 5] obtain obj s' where
    f: "fetch example_store 0 (Some 2) (Some 5) = (Inr obj, s')"
    and r: "genomic_position s' obj = Inr [2, 3, 4]" "continuous s' obj" "offset s' obj = AInt 2"
    by auto
  have "fst (fetch example_store 0 (Some 2) (Some 5)) = Inr 2"
    using fetch_continuous_store [of example_store 0 0 2 5] 
    by (simp add: example_defs store_defs sel_defs fetch_defs Let_def)
  with f have "obj = 2" by simp
  with f r show ?thesis by blast
qed

section \<open>The source is not changed\<close>

lemma extends_source:
  assumes "extends s s'" and "self < length (objs s)"
    and "ds_attrs (objs s ! self) < length (dicts s)"
  shows "objs s' ! self = objs s ! self" and "attrs_of s' self = attrs_of s self"
proof -
  from assms(1) have o: "take (length (objs s)) (objs s') = objs s"
    and d: "take (length (dicts s)) (dicts s') = dicts s"
    by (simp_all add: extends_def)
  show 1: "objs s' ! self = objs s ! self"
    using assms(2) o by (metis nth_take)
  have "dicts s' ! ds_attrs (objs s ! self) = dicts s ! ds_attrs (objs s ! self)"
    using assms(3) d by (metis nth_take)
  with 1 show "attrs_of s' self = attrs_of s self"
    by (simp add: attrs_of_def)
qed



section \<open>A discontinuous dataset stays discontinuous\<close>








text \<open>
  An interval that starts below zero is cast to \<open>uint32\<close> and then ends below
  its start. \<open>_regions_to_pos\<close> gives it the buffer of zeros, and the
  discontinuous dataset of the second example store returns the position 0
  three times; the result is not continuous.
\<close>

lemma regions_to_pos_negative_num:
  "regions_to_pos [(- 1, 2)] = Inr [0, 0, 0]"
  using regions_to_pos_negative by simp

lemma fetch_negative_start_sparse:
  "\<exists>s'. fetch example_store2 1 (Some (- 1)) (Some 2) = (Inr 2, s')
     \<and> genomic_position s' 2 = Inr [0, 0, 0] \<and> \<not> continuous s' 2"
  by (simp add: example_defs store_defs sel_defs fetch_defs regions_to_pos_negative
      regions_to_pos_negative_num Let_def)

lemma fetch_regions_negative_start_sparse:
  "\<exists>s'. fetch_regions example_store2 1 [(- 1, 2)] = (Inr 2, s')
     \<and> genomic_position s' 2 = Inr [0, 0, 0] \<and> \<not> continuous s' 2"
  by (simp add: example_defs store_defs sel_defs fetch_defs regions_to_pos_negative
      regions_to_pos_negative_num Let_def)

section \<open>Aggregation into regions: rejected calls and the empty selection\<close>

text \<open>
  C10. A call of \<open>get_region_ds\<close> that supplies a \<open>bin_size\<close> of 1 or less
  fails on the assertion \<open>bin_size > 1\<close>, whatever the other arguments are, and
  the store is as before: no position has been selected and nothing has been
  aggregated.
\<close>

theorem bin_size_rejected:
  fixes s :: "'a::monoid_add store"
  assumes "b \<le> 1"
  shows "get_region_ds parse_mc_pattern s self mc_type (Some b) regions region_name
           region_start region_end =
         (Inl (AssertionError ''bin_size must be greater than 1.''), s)"
  using assms by (simp add: get_region_ds_def bin_bounds_def)

theorem bin_size_rejected_witness:
  "get_region_ds example_parse example_store 0 ''CGN'' (Some 1) None None None None =
     (Inl (AssertionError ''bin_size must be greater than 1.''), example_store)"
  using bin_size_rejected [of 1 example_parse example_store 0 "''CGN''" None None None None]
  by simp




text \<open>
  The same table without \<open>bin_size\<close>, and a table of three columns.
\<close>

lemma get_region_ds_regions_only:
  "get_region_ds example_parse example_store 0 ''CGN'' None
         (Some (Table2 (Some ''region'') [(Lstr ''a'', 0, 3), (Lstr ''b'', 5, 9)]))
         None None None =
     (Inl (TypingError ''cannot determine Numba type of DataFrame''), example_store)"
  by (simp add: example_defs store_defs sel_defs region_defs Let_def)

lemma get_region_ds_three_columns:
  "get_region_ds example_parse example_store 0 ''CGN'' (Some 5)
         (Some (Table3 (Some ''region'') [(Lstr ''a'', ''chr1'', 0, 3), (Lstr ''b'', ''chr1'', 5, 9)]))
         None None None =
     (Inl (ValueError ''iLocation based boolean indexing cannot use an indexable as a mask''),
      example_store)"
  by (simp add: example_defs store_defs sel_defs region_defs Let_def)

text \<open>
  C6. On the continuous example chromosome no position has the context \<open>CAA\<close>
  that the pattern \<open>CAN\<close> selects. \<open>get_region_ds\<close> does not reach its branch
  for the empty selection: \<open>fetch_positions\<close> takes the minimum of the empty
  list of positions and raises. On a discontinuous source the same call
  returns the zero-filled bins (\<open>get_region_ds_empty_sparse\<close>).
\<close>

theorem get_region_ds_empty_continuous:
  "get_region_ds example_parse example_store 0 ''CAN'' (Some 5) None None None None =
     (Inl (ValueError ''min() arg is an empty sequence''), example_store)"
  by (simp add: example_defs store_defs sel_defs fetch_defs region_defs Let_def upt_conv_Cons)

lemma get_region_ds_empty_sparse:
  "fst (get_region_ds example_parse example_store 1 ''CAN'' (Some 5) None None None None) =
     Inr \<lparr>rd_dim = ''pos_bins'', rd_labels = [Lint 1, Lint 5], rd_data = [0, 0]\<rparr>"
  by (simp add: example_defs store_defs sel_defs fetch_defs region_defs Let_def upt_conv_Cons)

lemma get_region_ds_nonempty_sparse:
  "fst (get_region_ds example_parse example_store 1 ''CGN'' (Some 5) None None None None) =
     Inr \<lparr>rd_dim = ''pos_bins'', rd_labels = [Lint 1, Lint 5], rd_data = [25, 17]\<rparr>"
  by (simp add: example_defs store_defs sel_defs fetch_defs region_defs Let_def upt_conv_Cons)

lemma get_region_ds_nonempty_continuous:
  "fst (get_region_ds example_parse example_store 0 ''CGN'' (Some 4) None None None None) =
     Inr \<lparr>rd_dim = ''pos_bins'', rd_labels = [Lint 0, Lint 4, Lint 8], rd_data = [25, 17, 0]\<rparr>"
  by (simp add: example_defs store_defs sel_defs fetch_defs region_defs Let_def upt_conv_Cons)

text \<open>
  C2. \<open>fetch_positions\<close> of the empty list of positions on a continuous dataset
  raises, where the claim has a discontinuous dataset without position; the
  discontinuous path returns it (\<open>fetch_positions_empty_sparse\<close>). For every
  other list of positions inside the window of a well-formed dataset the call
  returns what the claim says (\<open>fetch_positions_returns\<close>).
\<close>

theorem fetch_positions_empty_continuous:
  "fetch_positions example_store 0 [] =
     (Inl (ValueError ''min() arg is an empty sequence''), example_store)"
  by (simp add: example_defs store_defs fetch_defs)

lemma fetch_positions_empty_sparse:
  "\<exists>s'. fetch_positions example_store 1 [] = (Inr 2, s')
     \<and> genomic_position s' 2 = Inr [] \<and> \<not> continuous s' 2 \<and> offset s' 2 = AInt 0"
  by (simp add: example_defs store_defs sel_defs fetch_defs Let_def)

section \<open>The match mask of the codebook\<close>

lemma upper_not_lower:
  "list_all (\<lambda>u. u \<notin> set ''abcdefghijklmnopqrstuvwxyz'') ''ABCDEFGHIJKLMNOPQRSTUVWXYZ''"
  by code_simp

lemma upper_char_idem: "upper_char (upper_char c) = upper_char c"
proof (cases "map_of (zip ''abcdefghijklmnopqrstuvwxyz'' ''ABCDEFGHIJKLMNOPQRSTUVWXYZ'') c")
  case None
  then show ?thesis by (simp only: upper_char_def option.case)
next
  case (Some u)
  then have "(c, u) \<in> set (zip ''abcdefghijklmnopqrstuvwxyz'' ''ABCDEFGHIJKLMNOPQRSTUVWXYZ'')"
    by (rule map_of_SomeD)
  then have "u \<in> set ''ABCDEFGHIJKLMNOPQRSTUVWXYZ''"
    by (rule set_zip_rightD)
  with upper_not_lower have "u \<notin> set ''abcdefghijklmnopqrstuvwxyz''"
    unfolding list_all_iff by blast
  moreover have "length ''abcdefghijklmnopqrstuvwxyz'' = length ''ABCDEFGHIJKLMNOPQRSTUVWXYZ''"
    by simp
  ultimately
  have "map_of (zip ''abcdefghijklmnopqrstuvwxyz'' ''ABCDEFGHIJKLMNOPQRSTUVWXYZ'') u = None"
    by (simp only: map_of_zip_is_None simp_thms)
  with Some show ?thesis
    by (simp only: upper_char_def option.case)
qed

lemma upper_idem: "upper (upper v) = upper v"
  by (simp add: upper_def upper_char_idem)

lemma validate_mc_pattern_upper:
  assumes "validate_mc_pattern cb mc_pattern = Inr p"
  shows "validate_mc_pattern cb p = Inr p"
proof -
  from assms have p: "p = upper mc_pattern"
    and n: "attr_num (cb_context_size cb) = Some (int (length (upper mc_pattern)))"
    and c: "str_index (upper mc_pattern) (cb_c_pos cb) = Inr CHR ''C''"
    unfolding validate_mc_pattern_def Let_def
    by (simp_all split: if_splits sum.splits)
  show ?thesis
    unfolding validate_mc_pattern_def Let_def p upper_idem
    using n c by simp
qed

lemma filter_judge:
  "map snd (filter fst (zip (map f ts) col)) = map snd (filter (\<lambda>(t, v). f t) (zip ts col))"
proof (induction ts arbitrary: col)
  case Nil
  then show ?case by simp
next
  case (Cons t ts)
  then show ?case by (cases col) simp_all
qed

lemma sum_list_nonzero:
  fixes zs :: "int list"
  assumes "sum_list zs \<noteq> 0"
  shows "\<exists>z \<in> set zs. z \<noteq> 0"
proof (rule ccontr)
  assume "\<not> (\<exists>z \<in> set zs. z \<noteq> 0)"
  then have "\<forall>z \<in> set zs. z = 0" by blast
  then have "sum_list zs = 0" by (induction zs) simp_all
  with assms show False by simp
qed

lemma sum_list_same_sign:
  fixes zs :: "int list"
  assumes "\<exists>z \<in> set zs. z \<noteq> 0"
    and "(\<forall>z \<in> set zs. 0 \<le> z) \<or> (\<forall>z \<in> set zs. z \<le> 0)"
  shows "sum_list zs \<noteq> 0"
proof
  assume z: "sum_list zs = 0"
  from assms(2) show False
  proof
    assume "\<forall>z \<in> set zs. 0 \<le> z"
    then have "\<forall>z \<in> set zs. z = 0"
      using z by (simp add: sum_list_nonneg_eq_0_iff)
    with assms(1) show False by blast
  next
    assume neg: "\<forall>z \<in> set zs. z \<le> 0"
    have "sum_list (map uminus zs) = - sum_list zs"
      by (induction zs) simp_all
    with z have "sum_list (map uminus zs) = 0" by simp
    moreover have "sum_list (map uminus zs) = 0 \<longleftrightarrow> (\<forall>z \<in> set (map uminus zs). z = 0)"
      by (rule sum_list_nonneg_eq_0_iff) (use neg in auto)
    ultimately have "\<forall>z \<in> set (map uminus zs). z = 0"
      by blast
    then have "\<forall>z \<in> set zs. z = 0" by simp
    with assms(1) show False by blast
  qed
qed

lemma get_mc_pos_bool_mask:
  assumes "validate_mc_pattern cb mc_pattern = Inr p" and "parse_mc_pattern p = Inr labels"
  shows "get_mc_pos_bool parse_mc_pattern cb mc_pattern =
     Inr (map (\<lambda>i. sum_list (selected_values cb labels i) \<noteq> 0) [0 ..< length (cb_values cb)])"
proof -
  have "map (\<lambda>col. sum_list (map snd (filter fst
            (zip (map (\<lambda>t. t \<in> set labels) (cb_mc_type cb)) col))) \<noteq> 0) (cb_values cb) =
      map (\<lambda>i. sum_list (selected_values cb labels i) \<noteq> 0) [0 ..< length (cb_values cb)]"
    by (rule nth_equalityI) (simp_all add: selected_values_def filter_judge)
  then show ?thesis
    using assms by (simp add: get_mc_pos_bool_def)
qed

lemma example_codebook_mask:
  "get_mc_pos_bool example_parse example_codebook ''cgn'' = Inr [False, True, False]"
  by (simp add: get_mc_pos_bool_def validate_mc_pattern_def upper_def upper_char_def
      str_index_def example_parse_def example_codebook_def Let_def)

lemma example_codebook_selected:
  "selected_values example_codebook [''CGA'', ''CGT'', ''CGC'', ''CGG'', ''CGN''] 0 = [1, - 1]"
  by (simp add: selected_values_def example_codebook_def)

text \<open>
  For a pattern that passes the validation and that \<open>parse_mc_pattern\<close>
  resolves to \<open>labels\<close>, the mask has one entry per position and \<open>get_mc_pos\<close>
  returns the positions where it is true. The entry is true exactly where the
  sum of the values of the selected labels is not zero. So a position where all
  selected labels have the value zero is never marked, and a position where
  some selected label is not zero is marked when the selected values there do
  not have opposite signs.
\<close>

lemma get_mc_pos_bool_sum:
  assumes "validate_mc_pattern cb mc_pattern = Inr p" and "parse_mc_pattern p = Inr labels"
  shows "\<exists>mask. get_mc_pos_bool parse_mc_pattern cb mc_pattern = Inr mask
    \<and> length mask = length (cb_values cb)
    \<and> get_mc_pos parse_mc_pattern cb mc_pattern None =
        Inr (map snd (filter fst (zip mask (cb_pos cb))))
    \<and> (\<forall>i < length mask.
         (mask ! i \<longleftrightarrow> sum_list (selected_values cb labels i) \<noteq> 0)
       \<and> (mask ! i \<longrightarrow> (\<exists>v \<in> set (selected_values cb labels i). v \<noteq> 0))
       \<and> ((\<exists>v \<in> set (selected_values cb labels i). v \<noteq> 0)
            \<and> ((\<forall>v \<in> set (selected_values cb labels i). 0 \<le> v)
               \<or> (\<forall>v \<in> set (selected_values cb labels i). v \<le> 0))
          \<longrightarrow> mask ! i))"
proof -
  let ?mask = "map (\<lambda>i. sum_list (selected_values cb labels i) \<noteq> 0) [0 ..< length (cb_values cb)]"
  have m: "get_mc_pos_bool parse_mc_pattern cb mc_pattern = Inr ?mask"
    using assms by (rule get_mc_pos_bool_mask)
  have v: "validate_mc_pattern cb p = Inr p"
    by (rule validate_mc_pattern_upper [OF assms(1)])
  have m': "get_mc_pos_bool parse_mc_pattern cb p = Inr ?mask"
    using v assms(2) by (rule get_mc_pos_bool_mask)
  have p: "get_mc_pos parse_mc_pattern cb mc_pattern None =
      Inr (map snd (filter fst (zip ?mask (cb_pos cb))))"
    using assms(1) m' by (simp add: get_mc_pos_def)
  have "\<forall>i < length ?mask.
         (?mask ! i \<longleftrightarrow> sum_list (selected_values cb labels i) \<noteq> 0)
       \<and> (?mask ! i \<longrightarrow> (\<exists>v \<in> set (selected_values cb labels i). v \<noteq> 0))
       \<and> ((\<exists>v \<in> set (selected_values cb labels i). v \<noteq> 0)
            \<and> ((\<forall>v \<in> set (selected_values cb labels i). 0 \<le> v)
               \<or> (\<forall>v \<in> set (selected_values cb labels i). v \<le> 0))
          \<longrightarrow> ?mask ! i)"
    using sum_list_nonzero sum_list_same_sign by auto
  with m p show ?thesis
    by (intro exI [of _ ?mask]) simp
qed

section \<open>The outcome of \<open>fetch_positions\<close> depends on the source alone\<close>

lemma continuous_attrs: "continuous s self = attrs_continuous (attrs_of s self)"
  by (simp add: continuous_def attrs_continuous_def)

lemma offset_attrs: "offset s self = attrs_offset (attrs_of s self)"
  by (simp add: offset_def attrs_offset_def)

lemma sel_keys_attrs: "sel_keys d keys = Inr d' \<Longrightarrow> ds_attrs d' = ds_attrs d"
  by (auto simp: sel_keys_def split: if_splits sum.splits)

lemma sel_slice_attrs: "sel_slice d a b = Inr d' \<Longrightarrow> ds_attrs d' = ds_attrs d"
  by (auto simp: sel_slice_def split: sum.splits)

lemma key_loc_set_attrs: "key_loc (d\<lparr>ds_attrs := x\<rparr>) = key_loc d"
  by (rule ext) (simp add: key_loc_def split: option.splits)

lemma sel_keys_set_attrs:
  "sel_keys (d\<lparr>ds_attrs := x\<rparr>) keys = map_sum id (\<lambda>d'. d'\<lparr>ds_attrs := x\<rparr>) (sel_keys d keys)"
  by (simp add: sel_keys_def key_loc_set_attrs split: sum.splits)

lemma priv_fetch_positions_view_set_attrs:
  "priv_fetch_positions_view (d\<lparr>ds_attrs := x\<rparr>) a positions =
   priv_fetch_positions_view d a positions"
  by (simp add: priv_fetch_positions_view_def sel_keys_set_attrs split: sum.splits)

lemma outcome_new:
  "outcome (Inr (length (objs s)),
      s\<lparr>objs := objs s @ [d\<lparr>ds_attrs := length (dicts s)\<rparr>], dicts := dicts s @ [a]\<rparr>) =
   Inr (d\<lparr>ds_attrs := 0\<rparr>, a)"
  by (simp add: outcome_def attrs_of_def)

lemma priv_fetch_positions_outcome:
  "outcome (priv_fetch_positions s self positions) =
   priv_fetch_positions_view (objs s ! self) (attrs_of s self) positions"
proof (cases "sub_offset (map astype_u32 (sort positions)) (offset s self)")
  case (Inl e)
  then show ?thesis
    by (simp add: priv_fetch_positions_def priv_fetch_positions_view_def outcome_def
        offset_attrs [symmetric])
next
  case keys: (Inr keys)
  show ?thesis
  proof (cases "sel_keys (objs s ! self) keys")
    case (Inl e)
    then show ?thesis
      using keys
      by (simp add: priv_fetch_positions_def priv_fetch_positions_view_def outcome_def
          offset_attrs [symmetric])
  next
    case (Inr d)
    from sel_keys_attrs [OF Inr] have a: "dicts s ! ds_attrs d = attrs_of s self"
      by (simp add: attrs_of_def)
    show ?thesis
      unfolding priv_fetch_positions_store [OF keys Inr] outcome_new a
      using keys Inr
      by (simp add: priv_fetch_positions_view_def offset_attrs [symmetric])
  qed
qed

lemma fetch_continuous_outcome:
  assumes "continuous s self"
  shows "outcome (fetch s self (Some start) (Some end')) =
    fetch_continuous_view (objs s ! self) (attrs_of s self) start end'"
proof (cases "start < end'")
  case False
  then show ?thesis
    by (simp add: fetch.simps fetch_continuous_view_def outcome_def)
next
  case lt: True
  show ?thesis
  proof (cases "attr_int (offset s self)")
    case (Inl e)
    then show ?thesis
      using lt assms
      by (simp add: fetch.simps fetch_continuous_view_def outcome_def offset_attrs [symmetric])
  next
    case off: (Inr off)
    show ?thesis
    proof (cases "sel_slice (objs s ! self) (start - off) (end' - off)")
      case (Inl e)
      then show ?thesis
        using lt assms off
        by (simp add: fetch.simps fetch_continuous_view_def outcome_def
            offset_attrs [symmetric])
    next
      case (Inr d)
      from sel_slice_attrs [OF Inr] have a: "dicts s ! ds_attrs d = attrs_of s self"
        by (simp add: attrs_of_def)
      show ?thesis
        unfolding fetch_continuous_store [OF assms off lt Inr] outcome_new a
        using lt off Inr
        by (simp add: fetch_continuous_view_def offset_attrs [symmetric])
    qed
  qed
qed

lemma fetch_positions_outcome:
  "outcome (fetch_positions s self positions) =
   fetch_positions_view (objs s ! self) (attrs_of s self) positions"
proof (cases "continuous s self")
  case False
  then show ?thesis
    by (simp add: fetch_positions.simps fetch_positions_view_def priv_fetch_positions_outcome
        continuous_attrs [symmetric])
next
  case True
  show ?thesis
  proof (cases "py_min positions")
    case (Inl e)
    then show ?thesis
      using True
      by (simp add: fetch_positions.simps fetch_positions_view_def outcome_def
          continuous_attrs [symmetric])
  next
    case pmin: (Inr pos_min)
    show ?thesis
    proof (cases "py_max positions")
      case (Inl e)
      then show ?thesis
        using True pmin
        by (simp add: fetch_positions.simps fetch_positions_view_def outcome_def
            continuous_attrs [symmetric])
    next
      case pmax: (Inr m)
      obtain r1 s1 where f: "fetch s self (Some pos_min) (Some (m + 1)) = (r1, s1)"
        by (cases "fetch s self (Some pos_min) (Some (m + 1))")
      have fo: "outcome (r1, s1) =
          fetch_continuous_view (objs s ! self) (attrs_of s self) pos_min (m + 1)"
        using fetch_continuous_outcome [OF True, of pos_min "m + 1"] f by simp
      show ?thesis
      proof (cases r1)
        case (Inl e)
        with fo have "fetch_continuous_view (objs s ! self) (attrs_of s self) pos_min (m + 1) = Inl e"
          by (simp add: outcome_def)
        then show ?thesis
          using True pmin pmax f Inl
          by (simp add: fetch_positions.simps fetch_positions_view_def outcome_def
              continuous_attrs [symmetric])
      next
        case (Inr obj)
        with fo have v: "fetch_continuous_view (objs s ! self) (attrs_of s self) pos_min (m + 1) =
            Inr ((objs s1 ! obj)\<lparr>ds_attrs := 0\<rparr>, attrs_of s1 obj)"
          by (simp add: outcome_def)
        have "outcome (fetch_positions s self positions) =
            outcome (priv_fetch_positions s1 obj positions)"
          using True pmin pmax f Inr by (simp add: fetch_positions.simps)
        also have "\<dots> = priv_fetch_positions_view ((objs s1 ! obj)\<lparr>ds_attrs := 0\<rparr>)
            (attrs_of s1 obj) positions"
          by (simp only: priv_fetch_positions_outcome priv_fetch_positions_view_set_attrs)
        also have "\<dots> = fetch_positions_view (objs s ! self) (attrs_of s self) positions"
          using True pmin pmax v
          by (simp add: fetch_positions_view_def continuous_attrs [symmetric])
        finally show ?thesis .
      qed
    qed
  qed
qed

lemma py_min_Min:
  "py_min ps = (if ps = [] then Inl (ValueError ''min() arg is an empty sequence'')
                else Inr (Min (set ps)))"
proof (cases ps)
  case Nil
  then show ?thesis by simp
next
  case (Cons p ps')
  have "fold min ps' p = Min (set (p # ps'))"
    by (rule Min.set_eq_fold [symmetric])
  with Cons show ?thesis by simp
qed

lemma py_max_Max:
  "py_max ps = (if ps = [] then Inl (ValueError ''max() arg is an empty sequence'')
                else Inr (Max (set ps)))"
proof (cases ps)
  case Nil
  then show ?thesis by simp
next
  case (Cons p ps')
  have "fold max ps' p = Max (set (p # ps'))"
    by (rule Max.set_eq_fold [symmetric])
  with Cons show ?thesis by simp
qed

lemma sort_eq_Nil: "sort ps = [] \<longleftrightarrow> ps = []"
  for ps :: "int list"
  by (metis length_sort length_0_conv)

lemma sort_sort: "sort (sort ps) = sort ps"
  for ps :: "int list"
  by (simp add: sorted_sort_id)

lemma priv_fetch_positions_view_sort:
  "priv_fetch_positions_view d a (sort positions) = priv_fetch_positions_view d a positions"
  by (simp add: priv_fetch_positions_view_def sort_sort cong: sum.case_cong)

lemma fetch_positions_view_sort:
  "fetch_positions_view d a (sort positions) = fetch_positions_view d a positions"
  by (simp add: fetch_positions_view_def priv_fetch_positions_view_sort py_min_Min py_max_Max
      sort_eq_Nil cong: sum.case_cong prod.case_cong)

lemma priv_fetch_positions_view_shape:
  assumes "priv_fetch_positions_view d a positions = Inr (d', a')"
  shows "ds_pos d' = Some (map astype_u32 (sort positions))" and "a' ''offset'' = None"
    and "a' ''continuous'' = Some (ABool False)"
  using assms
  by (auto simp: priv_fetch_positions_view_def split: sum.splits)

lemma fetch_positions_view_shape:
  assumes "fetch_positions_view d a positions = Inr (d', a')"
  shows "ds_pos d' = Some (map astype_u32 (sort positions))" and "a' ''offset'' = None"
    and "a' ''continuous'' = Some (ABool False)"
proof -
  from assms obtain d1 a1 where "priv_fetch_positions_view d1 a1 positions = Inr (d', a')"
    by (auto simp: fetch_positions_view_def split: if_splits sum.splits)
  from priv_fetch_positions_view_shape [OF this]
  show "ds_pos d' = Some (map astype_u32 (sort positions))" and "a' ''offset'' = None"
    and "a' ''continuous'' = Some (ABool False)"
    by simp_all
qed

lemma fetch_positions_result:
  assumes "fetch_positions s self positions = (Inr obj, s')"
  shows "genomic_position s' obj = Inr (map astype_u32 (sort positions))"
    and "\<not> continuous s' obj" and "offset s' obj = AInt 0"
proof -
  let ?d' = "(objs s' ! obj)\<lparr>ds_attrs := 0\<rparr>"
  have "fetch_positions_view (objs s ! self) (attrs_of s self) positions =
      Inr (?d', attrs_of s' obj)"
    using fetch_positions_outcome [of s self positions] assms by (simp add: outcome_def)
  from fetch_positions_view_shape [OF this]
  have p: "ds_pos (objs s' ! obj) = Some (map astype_u32 (sort positions))"
    and o: "attrs_of s' obj ''offset'' = None"
    and c: "attrs_of s' obj ''continuous'' = Some (ABool False)"
    by simp_all
  from o show off: "offset s' obj = AInt 0"
    by (simp add: offset_def)
  from c show "\<not> continuous s' obj"
    by (simp add: continuous_def)
  from p off show "genomic_position s' obj = Inr (map astype_u32 (sort positions))"
    by (simp add: genomic_position_def attr_int_def pos_index_def)
qed

lemma wf_window_range:
  assumes "wf s self" and "genomic_position s self = Inr window"
  shows "\<forall>p \<in> set window. 0 \<le> p \<and> p < 2 ^ 32"
proof (cases "continuous s self")
  case True
  with assms(1) obtain off where nc: "ds_pos (objs s ! self) = None"
    and off: "offset s self = AInt off" and lo: "0 \<le> off"
    and hi: "off + int (length (ds_data (objs s ! self))) \<le> 2 ^ 32"
    by (auto simp: wf_def split: attr.splits)
  from assms(2) nc off
  have "window = map (\<lambda>p. p + off) (map int [0 ..< length (ds_data (objs s ! self))])"
    by (simp add: genomic_position_def attr_int_def pos_index_def)
  with lo hi show ?thesis by auto
next
  case False
  with assms(1) have off: "offset s self = AInt 0"
    and r: "case ds_pos (objs s ! self) of
        None \<Rightarrow> int (length (ds_data (objs s ! self))) \<le> 2 ^ 32
      | Some idx \<Rightarrow> length idx = length (ds_data (objs s ! self)) \<and> distinct idx
          \<and> list_all (\<lambda>p. 0 \<le> p \<and> p < 2 ^ 32) idx"
    by (simp_all add: wf_def)
  from assms(2) off have w: "window = pos_index (objs s ! self)"
    by (simp add: genomic_position_def attr_int_def)
  show ?thesis
  proof (cases "ds_pos (objs s ! self)")
    case None
    with r w show ?thesis by (auto simp: pos_index_def)
  next
    case (Some idx)
    with r w show ?thesis by (auto simp: pos_index_def list_all_iff)
  qed
qed

lemma astype_u32_id: "\<forall>p \<in> set ps. 0 \<le> p \<and> p < 2 ^ 32 \<Longrightarrow> map astype_u32 ps = ps"
  by (induction ps) (simp_all add: astype_u32_def)

text \<open>
  C7. On a well-formed dataset and for positions inside its window, fetching
  the positions of the result of \<open>fetch_positions(P)\<close> from the same source has
  the outcome of \<open>fetch_positions(P)\<close> itself: the same positions, the same
  data and codebook columns and the same attributes when it returns, and the
  same error when it raises.
\<close>

theorem fetch_positions_idempotent:
  assumes "wf s self" and "genomic_position s self = Inr window"
    and "set positions \<subseteq> set window"
  shows "outcome (case fetch_positions s self positions of
                    (Inl e, s') \<Rightarrow> (Inl e, s')
                  | (Inr obj, s') \<Rightarrow>
                      (case genomic_position s' obj of
                         Inl e \<Rightarrow> (Inl e, s')
                       | Inr positions' \<Rightarrow> fetch_positions s' self positions')) =
         outcome (fetch_positions s self positions)"
proof -
  obtain r s' where f: "fetch_positions s self positions = (r, s')"
    by (cases "fetch_positions s self positions")
  show ?thesis
  proof (cases r)
    case (Inl e)
    with f show ?thesis by (simp add: outcome_def)
  next
    case (Inr obj)
    from wf_window_range [OF assms(1,2)] assms(3)
    have "\<forall>p \<in> set (sort positions). 0 \<le> p \<and> p < 2 ^ 32" by auto
    then have "map astype_u32 (sort positions) = sort positions"
      by (rule astype_u32_id)
    with fetch_positions_result(1) [of s self positions obj s'] f Inr
    have g: "genomic_position s' obj = Inr (sort positions)" by simp
    from f have "extends s s'" by (rule fetch_positions_extends)
    moreover from assms(1) have "self < length (objs s)"
      and "ds_attrs (objs s ! self) < length (dicts s)"
      by (simp_all add: wf_def)
    ultimately have same: "objs s' ! self = objs s ! self" "attrs_of s' self = attrs_of s self"
      by (rule extends_source)+
    have "outcome (fetch_positions s' self (sort positions)) =
        fetch_positions_view (objs s ! self) (attrs_of s self) (sort positions)"
      by (simp only: fetch_positions_outcome same)
    also have "\<dots> = outcome (fetch_positions s self positions)"
      by (simp only: fetch_positions_outcome fetch_positions_view_sort)
    finally show ?thesis
      using f Inr g by simp
  qed
qed

theorem fetch_positions_idempotent_witness:
  "\<exists>d a. outcome (fetch_positions example_store 0 [7, 1, 4, 4]) = Inr (d, a)
     \<and> ds_pos d = Some [1, 4, 4, 7] \<and> ds_data d = [11, 14, 14, 17]
     \<and> outcome (case fetch_positions example_store 0 [7, 1, 4, 4] of
                  (Inl e, s') \<Rightarrow> (Inl e, s')
                | (Inr obj, s') \<Rightarrow>
                    (case genomic_position s' obj of
                       Inl e \<Rightarrow> (Inl e, s')
                     | Inr positions' \<Rightarrow> fetch_positions s' 0 positions')) = Inr (d, a)"
proof -
  have 1: "wf example_store 0"
    by (simp add: wf_def example_store_def store_defs)
  have 2: "genomic_position example_store 0 = Inr [0, 1, 2, 3, 4, 5, 6, 7, 8, 9]"
    by (simp add: example_store_def store_defs sel_defs upt_conv_Cons)
  have 3: "set [7, 1, 4, 4] \<subseteq> set [0, 1, 2, 3, 4, 5, 6, 7, 8, 9 :: int]"
    by simp
  have "\<exists>d a. outcome (fetch_positions example_store 0 [7, 1, 4, 4]) = Inr (d, a)
     \<and> ds_pos d = Some [1, 4, 4, 7] \<and> ds_data d = [11, 14, 14, 17]"
    by (simp add: outcome_def example_defs store_defs sel_defs fetch_defs Let_def)
  with fetch_positions_idempotent [OF 1 2 3] show ?thesis
    by auto
qed

section \<open>\<open>fetch_positions\<close> returns for positions inside the window\<close>

text \<open>
  On a well-formed dataset, for positions inside its window, not none of them
  when the dataset is continuous, \<open>fetch_positions\<close> returns a discontinuous
  dataset with offset 0 whose positions are the requested ones in ascending
  order, repeated as they were given.
\<close>

lemma collect_map_Inr:
  "\<forall>k \<in> set ks. f k = Inr (g k) \<Longrightarrow> collect (map f ks) = Inr (map g ks)"
  by (induction ks) simp_all

lemma index_of_mem: "p \<in> set idx \<Longrightarrow> \<exists>i. index_of p idx = Some i"
  by (induction idx) auto

lemma sub_offset_in_range:
  assumes "attrs_offset a = AInt off" and "0 \<le> off"
    and "\<forall>p \<in> set ps. off \<le> p \<and> p < 2 ^ 32"
  shows "sub_offset (map astype_u32 ps) (attrs_offset a) = Inr (map (\<lambda>p. p - off) ps)"
proof -
  have "astype_u32 (astype_u32 p - off) = p - off" if "p \<in> set ps" for p
  proof -
    from that assms(2,3) have "0 \<le> p" "p < 2 ^ 32" "0 \<le> p - off" "p - off < 2 ^ 32"
      by auto
    then show ?thesis by (simp add: astype_u32_def)
  qed
  moreover have "off < 2 ^ 32 \<or> ps = []"
    using assms(3) by (cases ps) auto
  ultimately show ?thesis
    using assms(1,2) by (auto simp: sub_offset_def attr_int_def)
qed

lemma priv_fetch_positions_view_no_coord:
  assumes "ds_pos d = None" and "attrs_offset a = AInt off" and "0 \<le> off"
    and "\<forall>p \<in> set positions. off \<le> p \<and> p < off + int (length (ds_data d)) \<and> p < 2 ^ 32"
  shows "\<exists>d' a'. priv_fetch_positions_view d a positions = Inr (d', a')"
proof -
  let ?ps = "sort positions"
  from assms(4) have r: "\<forall>p \<in> set ?ps. off \<le> p \<and> p < 2 ^ 32" by simp
  have k: "sub_offset (map astype_u32 ?ps) (attrs_offset a) = Inr (map (\<lambda>p. p - off) ?ps)"
    by (rule sub_offset_in_range [OF assms(2,3) r])
  have "\<forall>k \<in> set (map (\<lambda>p. p - off) ?ps). key_loc d k = Inr (nat k)"
    using assms(1,4) by (auto simp: key_loc_def)
  then have "collect (map (key_loc d) (map (\<lambda>p. p - off) ?ps)) =
      Inr (map nat (map (\<lambda>p. p - off) ?ps))"
    by (rule collect_map_Inr)
  then have "\<exists>d'. sel_keys d (map (\<lambda>p. p - off) ?ps) = Inr d'"
    using assms(1) by (simp add: sel_keys_def)
  with k show ?thesis
    by (auto simp: priv_fetch_positions_view_def)
qed

lemma priv_fetch_positions_view_coord:
  assumes "ds_pos d = Some idx" and "attrs_offset a = AInt 0" and "distinct idx"
    and "set positions \<subseteq> set idx" and "\<forall>p \<in> set idx. 0 \<le> p \<and> p < 2 ^ 32"
  shows "\<exists>d' a'. priv_fetch_positions_view d a positions = Inr (d', a')"
proof -
  let ?ps = "sort positions"
  from assms(4,5) have r: "\<forall>p \<in> set ?ps. 0 \<le> p \<and> p < 2 ^ 32" by auto
  have k: "sub_offset (map astype_u32 ?ps) (attrs_offset a) = Inr (map (\<lambda>p. p - 0) ?ps)"
    by (rule sub_offset_in_range [OF assms(2) _ r]) simp
  have "\<forall>k \<in> set ?ps. key_loc d k = Inr (the (index_of k idx))"
  proof
    fix k assume "k \<in> set ?ps"
    with assms(4) have "k \<in> set idx" by auto
    from index_of_mem [OF this] obtain i where "index_of k idx = Some i" by blast
    with assms(1) show "key_loc d k = Inr (the (index_of k idx))"
      by (simp add: key_loc_def)
  qed
  then have "collect (map (key_loc d) ?ps) = Inr (map (\<lambda>k. the (index_of k idx)) ?ps)"
    by (rule collect_map_Inr)
  then have "\<exists>d'. sel_keys d ?ps = Inr d'"
    using assms(1,3) by (simp add: sel_keys_def)
  with k show ?thesis
    by (auto simp: priv_fetch_positions_view_def)
qed

lemma fetch_positions_view_returns:
  assumes "wf s self" and "genomic_position s self = Inr window"
    and "set positions \<subseteq> set window" and "positions \<noteq> [] \<or> \<not> continuous s self"
  shows "\<exists>d' a'. fetch_positions_view (objs s ! self) (attrs_of s self) positions = Inr (d', a')"
proof (cases "continuous s self")
  case False
  let ?d = "objs s ! self"
  from False assms(1) have off: "offset s self = AInt 0"
    and r: "case ds_pos ?d of
        None \<Rightarrow> int (length (ds_data ?d)) \<le> 2 ^ 32
      | Some idx \<Rightarrow> length idx = length (ds_data ?d) \<and> distinct idx
          \<and> list_all (\<lambda>p. 0 \<le> p \<and> p < 2 ^ 32) idx"
    by (simp_all add: wf_def)
  from assms(2) off have w: "window = pos_index ?d"
    by (simp add: genomic_position_def attr_int_def)
  from off have ao: "attrs_offset (attrs_of s self) = AInt 0"
    by (simp add: offset_attrs)
  have "\<exists>d' a'. priv_fetch_positions_view ?d (attrs_of s self) positions = Inr (d', a')"
  proof (cases "ds_pos ?d")
    case None
    with r w assms(3)
    have "\<forall>p \<in> set positions. 0 \<le> p \<and> p < 0 + int (length (ds_data ?d)) \<and> p < 2 ^ 32"
      by (auto simp: pos_index_def)
    from priv_fetch_positions_view_no_coord [OF None ao _ this] show ?thesis by simp
  next
    case (Some idx)
    with r w assms(3) have "distinct idx" "set positions \<subseteq> set idx"
      "\<forall>p \<in> set idx. 0 \<le> p \<and> p < 2 ^ 32"
      by (auto simp: pos_index_def list_all_iff)
    from priv_fetch_positions_view_coord [OF Some ao this] show ?thesis .
  qed
  with False show ?thesis
    by (simp add: fetch_positions_view_def continuous_attrs)
next
  case True
  let ?d = "objs s ! self"
  let ?n = "length (ds_data ?d)"
  from True assms(4) have ne: "positions \<noteq> []" by simp
  from True assms(1) obtain off where nc: "ds_pos ?d = None"
    and off: "offset s self = AInt off" and lo: "0 \<le> off" and hi: "off + int ?n \<le> 2 ^ 32"
    by (auto simp: wf_def split: attr.splits)
  from assms(2) nc off have w: "window = map (\<lambda>p. p + off) (map int [0 ..< ?n])"
    by (simp add: genomic_position_def attr_int_def pos_index_def)
  with assms(3) have inw: "\<forall>p \<in> set positions. off \<le> p \<and> p < off + int ?n"
    by auto
  let ?pmin = "Min (set positions)" and ?m = "Max (set positions)"
  from ne have mem: "?pmin \<in> set positions" "?m \<in> set positions"
    by simp_all
  from ne have bounds: "\<forall>p \<in> set positions. ?pmin \<le> p \<and> p \<le> ?m"
    by simp
  from mem inw have pm: "off \<le> ?pmin" "?m < off + int ?n" by auto
  from mem bounds have le: "?pmin \<le> ?m" by auto
  let ?lo = "clip_index (?pmin - off) ?n" and ?hi = "clip_index (?m + 1 - off) ?n"
  let ?d1 = "?d\<lparr>ds_pos := None, ds_data := drop ?lo (take ?hi (ds_data ?d)),
      ds_codebook := drop ?lo (take ?hi (ds_codebook ?d))\<rparr>"
  let ?a1 = "(attrs_of s self)(''offset'' \<mapsto> AInt ?pmin)"
  have ao: "attr_int (attrs_offset (attrs_of s self)) = Inr off"
    using off by (simp add: offset_attrs attr_int_def)
  have fv: "fetch_continuous_view ?d (attrs_of s self) ?pmin (?m + 1) =
      Inr (?d1\<lparr>ds_attrs := 0\<rparr>, ?a1)"
    using le ao by (simp add: fetch_continuous_view_def sel_slice_no_coord [OF nc])
  have clip: "?lo = nat (?pmin - off)" "?hi = nat (?m + 1 - off)"
    using pm le by (simp_all add: clip_index_def)
  have len: "int (length (ds_data (?d1\<lparr>ds_attrs := 0\<rparr>))) = ?m + 1 - ?pmin"
    unfolding clip using pm le by simp
  have "\<forall>p \<in> set positions. ?pmin \<le> p
      \<and> p < ?pmin + int (length (ds_data (?d1\<lparr>ds_attrs := 0\<rparr>))) \<and> p < 2 ^ 32"
    unfolding len using bounds inw hi by auto
  moreover have "ds_pos (?d1\<lparr>ds_attrs := 0\<rparr>) = None" by simp
  moreover have "attrs_offset ?a1 = AInt ?pmin" by (simp add: attrs_offset_def)
  moreover have "0 \<le> ?pmin" using pm lo by simp
  ultimately
  have "\<exists>d' a'. priv_fetch_positions_view (?d1\<lparr>ds_attrs := 0\<rparr>) ?a1 positions = Inr (d', a')"
    by (intro priv_fetch_positions_view_no_coord)
  with True ne fv show ?thesis
    by (simp add: fetch_positions_view_def continuous_attrs py_min_Min py_max_Max)
qed

lemma fetch_positions_returns:
  assumes "wf s self" and "genomic_position s self = Inr window"
    and "set positions \<subseteq> set window" and "positions \<noteq> [] \<or> \<not> continuous s self"
  shows "\<exists>obj s'. fetch_positions s self positions = (Inr obj, s')
    \<and> genomic_position s' obj = Inr (sort positions)
    \<and> \<not> continuous s' obj \<and> offset s' obj = AInt 0"
proof -
  from fetch_positions_view_returns [OF assms] obtain d' a'
    where "fetch_positions_view (objs s ! self) (attrs_of s self) positions = Inr (d', a')"
    by blast
  then have o: "outcome (fetch_positions s self positions) = Inr (d', a')"
    by (simp add: fetch_positions_outcome)
  obtain r s' where f: "fetch_positions s self positions = (r, s')"
    by (cases "fetch_positions s self positions")
  with o obtain obj where "r = Inr obj"
    by (cases r) (simp_all add: outcome_def)
  with f have f': "fetch_positions s self positions = (Inr obj, s')" by simp
  from wf_window_range [OF assms(1,2)] assms(3)
  have "\<forall>p \<in> set (sort positions). 0 \<le> p \<and> p < 2 ^ 32" by auto
  then have "map astype_u32 (sort positions) = sort positions"
    by (rule astype_u32_id)
  with fetch_positions_result [OF f'] f' show ?thesis
    by simp
qed

section \<open>\<open>select_mc_type\<close>\<close>

lemma example_codebook_of: "codebook_of example_store2 0 = Inr example_codebook"
  by (simp add: example_defs store_defs sel_defs codebook_of_def example_codebook_def)

text \<open>
  The dataset \<open>select_mc_type\<close> returns has the positions of the mask, moved by
  the offset of the source: those where the sum of the values of the selected
  labels is not zero.
\<close>

lemma select_mc_type_positions:
  assumes "select_mc_type parse_mc_pattern s self pattern = (Inr obj, s')"
  shows "\<exists>cb p labels k. codebook_of s self = Inr cb
     \<and> validate_mc_pattern cb pattern = Inr p \<and> parse_mc_pattern p = Inr labels
     \<and> attr_int (offset s self) = Inr k
     \<and> genomic_position s' obj =
         Inr (map astype_u32 (sort (map (\<lambda>q. q + k) (map snd (filter fst
           (zip (map (\<lambda>i. sum_list (selected_values cb labels i) \<noteq> 0)
                   [0 ..< length (cb_values cb)])
                (cb_pos cb)))))))"
proof -
  from assms obtain cb where cb: "codebook_of s self = Inr cb"
    by (auto simp: select_mc_type_def split: sum.splits)
  from assms cb obtain pattern_pos
    where g: "get_mc_pos parse_mc_pattern cb pattern (Some (offset s self)) = Inr pattern_pos"
      and f: "fetch_positions s self pattern_pos = (Inr obj, s')"
    by (auto simp: select_mc_type_def split: sum.splits prod.splits if_splits)
  from g obtain p where p: "validate_mc_pattern cb pattern = Inr p"
    by (auto simp: get_mc_pos_def split: sum.splits)
  from g p obtain mask where m: "get_mc_pos_bool parse_mc_pattern cb p = Inr mask"
    by (auto simp: get_mc_pos_def split: sum.splits)
  have v: "validate_mc_pattern cb p = Inr p"
    by (rule validate_mc_pattern_upper [OF p])
  from m v obtain labels where l: "parse_mc_pattern p = Inr labels"
    by (auto simp: get_mc_pos_bool_def split: sum.splits)
  from get_mc_pos_bool_mask [of cb p p parse_mc_pattern labels] v l m
  have mask: "mask = map (\<lambda>i. sum_list (selected_values cb labels i) \<noteq> 0)
      [0 ..< length (cb_values cb)]"
    by simp
  from g p m obtain k where k: "attr_int (offset s self) = Inr k"
    and pp: "pattern_pos = map (\<lambda>q. q + k) (map snd (filter fst (zip mask (cb_pos cb))))"
    by (auto simp: get_mc_pos_def Let_def split: sum.splits)
  from fetch_positions_result(1) [OF f]
  have "genomic_position s' obj = Inr (map astype_u32 (sort pattern_pos))" .
  with cb p l k pp mask show ?thesis by simp
qed

text \<open>
  C4. The mask and \<open>select_mc_type\<close> are to mark a position exactly when some
  label the pattern denotes has a value other than zero there. On the
  continuous dataset of the second example store they do not: at position 0
  the labels \<open>CGA\<close> and \<open>CGT\<close>, both denoted by \<open>CGN\<close>, have the values 1 and
  -1, their sum is 0, the mask is false there, and \<open>select_mc_type\<close> returns
  the position 1 alone, although the source says of the values that "only 0 is
  False, -1 and 1 are True".
\<close>

theorem select_mc_type_omits_position:
  "codebook_of example_store2 0 = Inr example_codebook
   \<and> selected_values example_codebook [''CGA'', ''CGT'', ''CGC'', ''CGG'', ''CGN''] 0 = [1, - 1]
   \<and> get_mc_pos_bool example_parse example_codebook ''CGN'' = Inr [False, True, False]
   \<and> (\<exists>s'. select_mc_type example_parse example_store2 0 ''CGN'' = (Inr 3, s')
         \<and> genomic_position s' 3 = Inr [1])"
proof -
  have "\<exists>s'. select_mc_type example_parse example_store2 0 ''CGN'' = (Inr 3, s')
         \<and> genomic_position s' 3 = Inr [1]"
    by (simp add: example_defs store_defs sel_defs fetch_defs region_defs Let_def)
  moreover
  have "get_mc_pos_bool example_parse example_codebook ''CGN'' = Inr [False, True, False]"
    by (simp add: get_mc_pos_bool_def validate_mc_pattern_def upper_def upper_char_def
        str_index_def example_parse_def example_codebook_def Let_def)
  ultimately show ?thesis
    by (simp add: example_codebook_of example_codebook_selected)
qed

end
